theory Spec2Isabelle
  imports Complex_Main
begin

section \<open>Errors and results\<close>

text \<open>
  The Python exceptions the modelled code can raise. A computation that may raise returns
  \<open>error + 'a\<close>, with \<open>Inl\<close> for the exception.
\<close>

datatype error =
    KeyError string
  | TypeError
  | ValueError
  | IndexError
  | RuntimeError
  | ZeroDivisionError
  | AttributeError
  | ConfigurationError

text \<open>Sequencing: the first exception aborts what follows.\<close>

definition bind :: "error + 'a \<Rightarrow> ('a \<Rightarrow> error + 'b) \<Rightarrow> error + 'b" where
  "bind m f = (case m of Inl e \<Rightarrow> Inl e | Inr v \<Rightarrow> f v)"

section \<open>Tensors\<close>

text \<open>
  A \<open>torch.Tensor\<close> is its shape together with its entries in row-major order. Entries are
  real numbers: rounding is not modelled. A tensor is well formed when it has as many
  entries as its shape says.
\<close>

record tensor =
  shape :: "nat list"
  data :: "real list"

definition wf_tensor :: "tensor \<Rightarrow> bool" where
  "wf_tensor t = (length (data t) = prod_list (shape t))"

text \<open>Multiplication and division of a tensor by a Python float.\<close>

definition smul :: "real \<Rightarrow> tensor \<Rightarrow> tensor" where
  "smul c t = \<lparr>shape = shape t, data = map (\<lambda>v. c * v) (data t)\<rparr>"

definition tdiv :: "tensor \<Rightarrow> real \<Rightarrow> tensor" where
  "tdiv t c = \<lparr>shape = shape t, data = map (\<lambda>v. v / c) (data t)\<rparr>"

text \<open>
  Broadcasting, as \<open>torch\<close> does it for \<open>+\<close> and \<open>-\<close>: the shapes are aligned at their
  last dimension; two dimensions are compatible when they are equal or one of them is 1;
  a missing leading dimension counts as 1.
\<close>

fun broadcast_rev :: "nat list \<Rightarrow> nat list \<Rightarrow> nat list option" where
  "broadcast_rev [] ys = Some ys"
| "broadcast_rev (x # xs) [] = Some (x # xs)"
| "broadcast_rev (x # xs) (y # ys) =
     (if x = y \<or> y = 1 then map_option ((#) x) (broadcast_rev xs ys)
      else if x = 1 then map_option ((#) y) (broadcast_rev xs ys)
      else None)"

definition broadcast_shapes :: "nat list \<Rightarrow> nat list \<Rightarrow> nat list option" where
  "broadcast_shapes s t = map_option rev (broadcast_rev (rev s) (rev t))"

text \<open>\<open>chunk n k d\<close>: the first \<open>n\<close> consecutive blocks of \<open>k\<close> entries of \<open>d\<close>.\<close>

fun chunk :: "nat \<Rightarrow> nat \<Rightarrow> 'a list \<Rightarrow> 'a list list" where
  "chunk 0 k d = []"
| "chunk (Suc n) k d = take k d # chunk n k (drop k d)"

text \<open>
  \<open>expand s t d\<close>: the entries of a tensor of shape \<open>s\<close> and entries \<open>d\<close>, repeated to
  fill the broadcast shape \<open>t\<close>.
\<close>

fun expand :: "nat list \<Rightarrow> nat list \<Rightarrow> real list \<Rightarrow> real list" where
  "expand s [] d = d"
| "expand s (n # t) d =
     (if length s \<le> length t then concat (replicate n (expand s t d))
      else if hd s = n then concat (map (expand (tl s) t) (chunk n (prod_list (tl s)) d))
      else concat (replicate n (expand (tl s) t d)))"

definition tbinop :: "(real \<Rightarrow> real \<Rightarrow> real) \<Rightarrow> tensor \<Rightarrow> tensor \<Rightarrow> error + tensor" where
  "tbinop f a b =
     (case broadcast_shapes (shape a) (shape b) of
        None \<Rightarrow> Inl RuntimeError
      | Some s \<Rightarrow>
          Inr \<lparr>shape = s,
               data = map2 f (expand (shape a) s (data a)) (expand (shape b) s (data b))\<rparr>)"

definition tadd :: "tensor \<Rightarrow> tensor \<Rightarrow> error + tensor" where
  "tadd = tbinop (+)"

definition tsub :: "tensor \<Rightarrow> tensor \<Rightarrow> error + tensor" where
  "tsub = tbinop (-)"

text \<open>The L2 norm of all the entries.\<close>

definition tnorm :: "tensor \<Rightarrow> real" where
  "tnorm t = sqrt (sum_list (map (\<lambda>v. v * v) (data t)))"

section \<open>Parameter dictionaries, physics, data fidelity\<close>

text \<open>
  \<open>cur_params\<close> is a dictionary from names to Python values. The values the iterators
  read are floats (\<open>"stepsize"\<close>, \<open>"sigma"\<close>, \<open>"lambda"\<close>, \<open>"g_param"\<close>) and callables
  on tensors (\<open>"K"\<close>, \<open>"K_adjoint"\<close>).
\<close>

datatype pyval = Float real | Callable "tensor \<Rightarrow> error + tensor"

type_synonym params = "string \<rightharpoonup> pyval"

text \<open>\<open>cur_params[k]\<close>, and \<open>cur_params[k]\<close> used as a number.\<close>

definition getitem :: "params \<Rightarrow> string \<Rightarrow> error + pyval" where
  "getitem d k = (case d k of None \<Rightarrow> Inl (KeyError k) | Some v \<Rightarrow> Inr v)"

definition get_float :: "params \<Rightarrow> string \<Rightarrow> error + real" where
  "get_float d k =
     bind (getitem d k) (\<lambda>v. case v of Float r \<Rightarrow> Inr r | Callable f \<Rightarrow> Inl TypeError)"

text \<open>
  The forward operator and the data-fidelity term are collaborators whose code lies outside
  the modelled files: they are records of the functions the iterators call.
\<close>

record physics =
  A :: "tensor \<Rightarrow> error + tensor"
  A_adjoint :: "tensor \<Rightarrow> error + tensor"

record fidelity =
  prox :: "tensor \<Rightarrow> tensor \<Rightarrow> physics \<Rightarrow> real \<Rightarrow> error + tensor"
  prox_d_conjugate :: "tensor \<Rightarrow> tensor \<Rightarrow> real \<Rightarrow> real \<Rightarrow> error + tensor"

section \<open>Priors (\<open>deepinv/optim/prior.py\<close>)\<close>

text \<open>
  A prior object: its class, the attributes \<open>_g\<close> (here \<open>g_attr\<close>), \<open>explicit_prior\<close> and
  \<open>denoiser\<close> (\<open>None\<close> where the class sets no such attribute). A potential takes the
  tensor and the extra positional arguments; a denoiser takes the tensor and the noise level.
\<close>

datatype prior_class = Prior | PnP | RED | Tikhonov

type_synonym potential = "tensor \<Rightarrow> pyval list \<Rightarrow> error + tensor"

type_synonym denoiser = "tensor \<Rightarrow> pyval \<Rightarrow> error + tensor"

record prior =
  cls :: prior_class
  g_attr :: "potential option"
  explicit_prior :: bool
  denoiser :: "denoiser option"

text \<open>
  The keyword arguments of \<open>prox\<close> that set the inner gradient descent, each absent
  (\<open>None\<close>) when the caller does not pass it.
\<close>

record kwargs =
  stepsize_inter :: "real option"
  max_iter_inter :: "nat option"
  tol_inter :: "real option"

definition no_kwargs :: kwargs where
  "no_kwargs = \<lparr>stepsize_inter = None, max_iter_inter = None, tol_inter = None\<rparr>"

definition default :: "'a \<Rightarrow> 'a option \<Rightarrow> 'a" where
  "default d v = (case v of None \<Rightarrow> d | Some w \<Rightarrow> w)"

text \<open>
  \<open>torch.autograd.grad\<close> is a parameter \<open>ad\<close> of the model: from a function on tensors and
  a point, the gradient at the point.
\<close>

type_synonym autograd = "(tensor \<Rightarrow> error + tensor) \<Rightarrow> tensor \<Rightarrow> error + tensor"

subsection \<open>Constructors\<close>

definition Prior_init :: "potential option \<Rightarrow> error + prior" where
  "Prior_init g =
     Inr \<lparr>cls = Prior, g_attr = g,
          explicit_prior = (case g of None \<Rightarrow> False | Some f \<Rightarrow> True),
          denoiser = None\<rparr>"

definition PnP_init :: "denoiser \<Rightarrow> potential option \<Rightarrow> error + prior" where
  "PnP_init D g =
     bind (Prior_init g)
       (\<lambda>p. Inr (p\<lparr>cls := PnP, denoiser := Some D, explicit_prior := False\<rparr>))"

definition RED_init :: "denoiser \<Rightarrow> potential option \<Rightarrow> error + prior" where
  "RED_init D g =
     bind (Prior_init g)
       (\<lambda>p. Inr (p\<lparr>cls := RED, denoiser := Some D, explicit_prior := False\<rparr>))"

definition Tikhonov_init :: "error + prior" where
  "Tikhonov_init =
     Inr \<lparr>cls = Tikhonov, g_attr = None, explicit_prior = True, denoiser = None\<rparr>"

subsection \<open>The potential \<open>g\<close>\<close>

definition Prior_g :: "prior \<Rightarrow> tensor \<Rightarrow> pyval list \<Rightarrow> error + tensor" where
  "Prior_g p x args = (case g_attr p of None \<Rightarrow> Inl TypeError | Some g \<Rightarrow> g x args)"

text \<open>
  \<open>0.5 * torch.norm(x.view(x.shape[0], -1), p=2, dim=-1)\<close>: one value for each index of
  the first dimension, half the L2 norm of the entries under it.
\<close>

definition Tikhonov_g :: "tensor \<Rightarrow> error + tensor" where
  "Tikhonov_g x =
     (case shape x of
        [] \<Rightarrow> Inl IndexError
      | b # rest \<Rightarrow>
          if b = 0 then Inl RuntimeError
          else Inr \<lparr>shape = [b],
                    data = map (\<lambda>row. 0.5 * sqrt (sum_list (map (\<lambda>v. v * v) row)))
                             (chunk b (prod_list rest) (data x))\<rparr>)"

text \<open>\<open>self.g(...)\<close>: the method of the object's class.\<close>

definition call_g :: "prior \<Rightarrow> tensor \<Rightarrow> pyval list \<Rightarrow> error + tensor" where
  "call_g p x args =
     (case cls p of
        Tikhonov \<Rightarrow> (case args of [] \<Rightarrow> Tikhonov_g x | a # as \<Rightarrow> Inl TypeError)
      | _ \<Rightarrow> Prior_g p x args)"

definition Prior_forward :: "prior \<Rightarrow> tensor \<Rightarrow> pyval list \<Rightarrow> error + tensor" where
  "Prior_forward p x args = call_g p x args"

subsection \<open>The gradient\<close>

definition Prior_grad :: "autograd \<Rightarrow> prior \<Rightarrow> tensor \<Rightarrow> pyval list \<Rightarrow> error + tensor" where
  "Prior_grad ad p x args = bind (call_g p x args) (\<lambda>v. ad (\<lambda>z. call_g p z args) x)"

definition RED_grad :: "prior \<Rightarrow> tensor \<Rightarrow> pyval list \<Rightarrow> error + tensor" where
  "RED_grad p x args =
     (case args of
        [] \<Rightarrow> Inl TypeError
      | sigma_denoiser # as \<Rightarrow>
          (case denoiser p of
             None \<Rightarrow> Inl AttributeError
           | Some D \<Rightarrow> bind (D x sigma_denoiser) (\<lambda>d. tsub x d)))"

definition Tikhonov_grad :: "tensor \<Rightarrow> error + tensor" where
  "Tikhonov_grad x = Inr x"

definition call_grad :: "autograd \<Rightarrow> prior \<Rightarrow> tensor \<Rightarrow> pyval list \<Rightarrow> error + tensor" where
  "call_grad ad p x args =
     (case cls p of
        RED \<Rightarrow> RED_grad p x args
      | Tikhonov \<Rightarrow> (case args of [] \<Rightarrow> Tikhonov_grad x | a # as \<Rightarrow> Inl TypeError)
      | _ \<Rightarrow> Prior_grad ad p x args)"

subsection \<open>The proximity operator\<close>

text \<open>
  Modelled from the spec: \<open>deepinv.optim.utils.gradient_descent\<close>, whose code is not among
  the modelled files. The spec: repeatedly apply \<open>z \<leftarrow> z - stepsize_inner * grad(z)\<close> until
  successive iterates differ by less than a tolerance or an inner iteration cap is reached.
  \<open>gd_loop\<close> also counts the updates it made.
\<close>

definition gd_update :: "(tensor \<Rightarrow> error + tensor) \<Rightarrow> real \<Rightarrow> tensor \<Rightarrow> error + tensor" where
  "gd_update grad_f step_size z = bind (grad_f z) (\<lambda>g. tsub z (smul step_size g))"

fun gd_loop ::
  "(tensor \<Rightarrow> error + tensor) \<Rightarrow> real \<Rightarrow> real \<Rightarrow> nat \<Rightarrow> nat \<Rightarrow> tensor \<Rightarrow> error + tensor \<times> nat"
where
  "gd_loop grad_f step_size tol 0 k z = Inr (z, k)"
| "gd_loop grad_f step_size tol (Suc n) k z =
     (case gd_update grad_f step_size z of
        Inl e \<Rightarrow> Inl e
      | Inr z' \<Rightarrow>
          (case tsub z' z of
             Inl e \<Rightarrow> Inl e
           | Inr d \<Rightarrow>
               if tnorm d < tol then Inr (z', Suc k)
               else gd_loop grad_f step_size tol n (Suc k) z'))"

definition gradient_descent ::
  "(tensor \<Rightarrow> error + tensor) \<Rightarrow> tensor \<Rightarrow> real \<Rightarrow> nat \<Rightarrow> real \<Rightarrow> error + tensor"
where
  "gradient_descent grad_f x step_size max_iter tol =
     bind (gd_loop grad_f step_size tol max_iter 0 x) (\<lambda>r. Inr (fst r))"

text \<open>\<open>k\<close> updates in a row, with no stopping test.\<close>

fun gd_iterate :: "(tensor \<Rightarrow> error + tensor) \<Rightarrow> real \<Rightarrow> nat \<Rightarrow> tensor \<Rightarrow> error + tensor" where
  "gd_iterate grad_f step_size 0 z = Inr z"
| "gd_iterate grad_f step_size (Suc k) z =
     bind (gd_update grad_f step_size z) (gd_iterate grad_f step_size k)"

text \<open>
  The L2 distance between the iterates \<open>j - 1\<close> and \<open>j\<close>, which the stopping test of the
  loop compares with the tolerance.
\<close>

definition gd_distance ::
  "(tensor \<Rightarrow> error + tensor) \<Rightarrow> real \<Rightarrow> tensor \<Rightarrow> nat \<Rightarrow> error + real"
where
  "gd_distance grad_f step_size x j =
     bind (gd_iterate grad_f step_size (j - 1) x) (\<lambda>a.
     bind (gd_iterate grad_f step_size j x) (\<lambda>b.
     bind (tsub b a) (\<lambda>d. Inr (tnorm d))))"

text \<open>
  \<open>Prior.prox\<close>. The function handed to the inner descent is
  \<open>lambda z: gamma * self.grad(z, *args, **kwargs) + (z - x)\<close>.
\<close>

definition prox_objective_grad ::
  "autograd \<Rightarrow> prior \<Rightarrow> tensor \<Rightarrow> real \<Rightarrow> pyval list \<Rightarrow> tensor \<Rightarrow> error + tensor"
where
  "prox_objective_grad ad p x gamma args z =
     bind (call_grad ad p z args)
       (\<lambda>gz. bind (tsub z x) (\<lambda>d. tadd (smul gamma gz) d))"

definition Prior_prox ::
  "autograd \<Rightarrow> prior \<Rightarrow> tensor \<Rightarrow> real \<Rightarrow> pyval list \<Rightarrow> kwargs \<Rightarrow> error + tensor"
where
  "Prior_prox ad p x gamma args kw =
     gradient_descent (prox_objective_grad ad p x gamma args) x
       (default 1 (stepsize_inter kw))
       (default 50 (max_iter_inter kw))
       (default (1 / 1000) (tol_inter kw))"

definition PnP_prox :: "prior \<Rightarrow> tensor \<Rightarrow> real \<Rightarrow> pyval list \<Rightarrow> kwargs \<Rightarrow> error + tensor" where
  "PnP_prox p x gamma args kw =
     (case args of
        [] \<Rightarrow> Inl TypeError
      | sigma_denoiser # as \<Rightarrow>
          (case denoiser p of
             None \<Rightarrow> Inl AttributeError
           | Some D \<Rightarrow> D x sigma_denoiser))"

definition Tikhonov_prox :: "tensor \<Rightarrow> real \<Rightarrow> error + tensor" where
  "Tikhonov_prox x gamma =
     (if gamma + 1 = 0 then Inl ZeroDivisionError else Inr (smul (1 / (gamma + 1)) x))"

text \<open>\<open>self.prox(...)\<close>: the method of the object's class.\<close>

definition call_prox ::
  "autograd \<Rightarrow> prior \<Rightarrow> tensor \<Rightarrow> real \<Rightarrow> pyval list \<Rightarrow> kwargs \<Rightarrow> error + tensor"
where
  "call_prox ad p x gamma args kw =
     (case cls p of
        PnP \<Rightarrow> PnP_prox p x gamma args kw
      | Tikhonov \<Rightarrow>
          (case args of
             [] \<Rightarrow> if kw = no_kwargs then Tikhonov_prox x gamma else Inl TypeError
           | a # as \<Rightarrow> Inl TypeError)
      | _ \<Rightarrow> Prior_prox ad p x gamma args kw)"

text \<open>
  \<open>Prior.prox_conjugate\<close>, which no subclass overrides:
  \<open>x - gamma * self.prox(x / gamma, lamb / gamma, *args, **kwargs)\<close>. Dividing the number
  \<open>lamb\<close> by a zero \<open>gamma\<close> raises.
\<close>

definition Prior_prox_conjugate ::
  "autograd \<Rightarrow> prior \<Rightarrow> tensor \<Rightarrow> real \<Rightarrow> pyval list \<Rightarrow> real \<Rightarrow> kwargs \<Rightarrow> error + tensor"
where
  "Prior_prox_conjugate ad p x gamma args lamb kw =
     (if gamma = 0 then Inl ZeroDivisionError
      else bind (call_prox ad p (tdiv x gamma) (lamb / gamma) args kw)
             (\<lambda>q. tsub x (smul gamma q)))"

section \<open>Iterators\<close>

text \<open>
  The iterate \<open>X\<close> is the dictionary \<open>{"est": ..., "cost": ...}\<close>; the estimate is a
  tuple of tensors, here a list, so that unpacking a tuple of the wrong length raises.

  The base classes \<open>OptimIterator\<close>, \<open>fStep\<close> and \<open>gStep\<close> are outside the modelled files.
  An iterator is the record of the attributes the modelled methods read: \<open>g_first\<close>,
  \<open>beta\<close>, \<open>has_cost\<close>, \<open>F_fn\<close> and \<open>data_fidelity\<close>. The iterator builds its two step
  modules from its own keyword arguments, so the three share these attributes.
\<close>

record iterate =
  est :: "tensor list"
  cost :: "real option"

record 'f optim_iterator =
  g_first :: bool
  beta :: real
  has_cost :: bool
  F_fn :: 'f
  data_fidelity :: fidelity

subsection \<open>Chambolle-Pock (\<open>deepinv/optim/optim_iterators/primal_dual_CP.py\<close>)\<close>

type_synonym cost_CP = "tensor \<Rightarrow> prior \<Rightarrow> params \<Rightarrow> tensor \<Rightarrow> physics \<Rightarrow> error + real"

text \<open>
  \<open>K = lambda x: cur_params["K"](x) if "K" in cur_params.keys() else x\<close>, and the same
  for \<open>"K_adjoint"\<close>.
\<close>

definition apply_or_id :: "params \<Rightarrow> string \<Rightarrow> tensor \<Rightarrow> error + tensor" where
  "apply_or_id cur_params k x =
     (case cur_params k of
        None \<Rightarrow> Inr x
      | Some (Callable f) \<Rightarrow> f x
      | Some (Float r) \<Rightarrow> Inl TypeError)"

definition fStepCP_forward ::
  "'f optim_iterator \<Rightarrow> tensor \<Rightarrow> tensor \<Rightarrow> tensor \<Rightarrow> physics \<Rightarrow> params \<Rightarrow> error + tensor"
where
  "fStepCP_forward it x w y phys cur_params =
     (if g_first it then
        bind (get_float cur_params ''stepsize'') (\<lambda>tau.
        bind (tsub x (smul tau w)) (\<lambda>p.
        bind (get_float cur_params ''lambda'') (\<lambda>lam.
        prox (data_fidelity it) p y phys (tau * lam))))
      else
        bind (get_float cur_params ''sigma'') (\<lambda>sg.
        bind (tadd x (smul sg w)) (\<lambda>p.
        bind (get_float cur_params ''lambda'') (\<lambda>lam.
        prox_d_conjugate (data_fidelity it) p y sg lam))))"

definition gStepCP_forward ::
  "autograd \<Rightarrow> 'f optim_iterator \<Rightarrow> tensor \<Rightarrow> tensor \<Rightarrow> prior \<Rightarrow> params \<Rightarrow> error + tensor"
where
  "gStepCP_forward ad it x w cur_prior cur_params =
     (if g_first it then
        bind (get_float cur_params ''sigma'') (\<lambda>sg.
        bind (tadd x (smul sg w)) (\<lambda>p.
        bind (getitem cur_params ''g_param'') (\<lambda>gp.
        Prior_prox_conjugate ad cur_prior p sg [gp] 1 no_kwargs)))
      else
        bind (get_float cur_params ''stepsize'') (\<lambda>tau.
        bind (tsub x (smul tau w)) (\<lambda>p.
        bind (getitem cur_params ''g_param'') (\<lambda>gp.
        call_prox ad cur_prior p tau [gp] no_kwargs))))"

definition CPIteration_forward ::
  "autograd \<Rightarrow> cost_CP optim_iterator \<Rightarrow> iterate \<Rightarrow> prior \<Rightarrow> params \<Rightarrow> tensor \<Rightarrow> physics
     \<Rightarrow> error + iterate"
where
  "CPIteration_forward ad it X cur_prior cur_params y phys =
     (case est X of
        [x_prev, z_prev, u_prev] \<Rightarrow>
          bind
            (if g_first it then
               bind (apply_or_id cur_params ''K'' z_prev) (\<lambda>Kz.
               bind (gStepCP_forward ad it u_prev Kz cur_prior cur_params) (\<lambda>u.
               bind (apply_or_id cur_params ''K_adjoint'' u) (\<lambda>Ku.
               bind (fStepCP_forward it x_prev Ku y phys cur_params) (\<lambda>x.
               Inr (u, x)))))
             else
               bind (apply_or_id cur_params ''K'' z_prev) (\<lambda>Kz.
               bind (fStepCP_forward it u_prev Kz y phys cur_params) (\<lambda>u.
               bind (apply_or_id cur_params ''K_adjoint'' u) (\<lambda>Ku.
               bind (gStepCP_forward ad it x_prev Ku cur_prior cur_params) (\<lambda>x.
               Inr (u, x))))))
            (\<lambda>(u, x).
               bind (tsub x x_prev) (\<lambda>d.
               bind (tadd x (smul (beta it) d)) (\<lambda>z.
               bind (if has_cost it
                     then bind (F_fn it x cur_prior cur_params y phys) (\<lambda>F. Inr (Some F))
                     else Inr None) (\<lambda>F.
               Inr \<lparr>est = [x, z, u], cost = F\<rparr>))))
      | _ \<Rightarrow> Inl ValueError)"

subsection \<open>Condat-Vu (\<open>examples/plug-and-play/demo_PnP_custom_optim.py\<close>)\<close>

type_synonym cost_CV = "tensor \<Rightarrow> params \<Rightarrow> tensor \<Rightarrow> physics \<Rightarrow> error + real"

definition fStepCV_forward ::
  "'f optim_iterator \<Rightarrow> tensor \<Rightarrow> tensor \<Rightarrow> params \<Rightarrow> error + tensor"
where
  "fStepCV_forward it z y cur_params =
     bind (get_float cur_params ''sigma'') (\<lambda>sg.
     bind (get_float cur_params ''lambda'') (\<lambda>lam.
     prox_d_conjugate (data_fidelity it) z y sg lam))"

definition gStepCV_forward ::
  "autograd \<Rightarrow> tensor \<Rightarrow> tensor \<Rightarrow> prior \<Rightarrow> params \<Rightarrow> error + tensor"
where
  "gStepCV_forward ad x Atu cur_prior cur_params =
     bind (get_float cur_params ''stepsize'') (\<lambda>tau.
     bind (tsub x (smul tau Atu)) (\<lambda>p.
     bind (getitem cur_params ''g_param'') (\<lambda>gp.
     call_prox ad cur_prior p tau [gp] no_kwargs)))"

definition CVIteration_forward ::
  "autograd \<Rightarrow> cost_CV optim_iterator \<Rightarrow> iterate \<Rightarrow> prior \<Rightarrow> params \<Rightarrow> tensor \<Rightarrow> physics
     \<Rightarrow> error + iterate"
where
  "CVIteration_forward ad it X cur_prior cur_params y phys =
     (case est X of
        [x_prev, u_prev] \<Rightarrow>
          bind (A_adjoint phys u_prev) (\<lambda>Atu.
          bind (gStepCV_forward ad x_prev Atu cur_prior cur_params) (\<lambda>x.
          bind (tsub (smul 2 x) x_prev) (\<lambda>e.
          bind (A phys e) (\<lambda>Ae.
          bind (fStepCV_forward it Ae y cur_params) (\<lambda>u.
          bind (if has_cost it
                then bind (F_fn it x cur_params y phys) (\<lambda>F. Inr (Some F))
                else Inr None) (\<lambda>F.
          Inr \<lparr>est = [x, u], cost = F\<rparr>))))))
      | _ \<Rightarrow> Inl ValueError)"

section \<open>The unrolled builder\<close>

text \<open>
  Modelled from the spec: \<open>deepinv.unfolded.unfolded_builder\<close>, whose code is not among the
  modelled files (only a test that calls it is). The spec: a parameter schedule maps a
  name to a single value, broadcast to every iteration, or to a sequence of per-iteration
  values whose length must equal the iteration budget; a malformed schedule is a
  configuration error. The builder makes a chain of fixed depth in which the schedule
  entries named in \<open>trainable_params\<close> become trainable weights, one independent value per
  position; the other entries remain fixed constants taken from the supplied schedule.
  A trainable weight is named by its entry and its position.
\<close>

datatype schedule_entry = Single real | Sequence "real list"

type_synonym schedule = "(string \<times> schedule_entry) list"

definition normalise_entry :: "nat \<Rightarrow> schedule_entry \<Rightarrow> error + real list" where
  "normalise_entry n e =
     (case e of
        Single v \<Rightarrow> Inr (replicate n v)
      | Sequence vs \<Rightarrow> if length vs = n then Inr vs else Inl ConfigurationError)"

fun normalise_schedule :: "nat \<Rightarrow> schedule \<Rightarrow> error + (string \<times> real list) list" where
  "normalise_schedule n [] = Inr []"
| "normalise_schedule n ((k, e) # rest) =
     (case normalise_entry n e of
        Inl err \<Rightarrow> Inl err
      | Inr vs \<Rightarrow>
          (case normalise_schedule n rest of
             Inl err \<Rightarrow> Inl err
           | Inr r \<Rightarrow> Inr ((k, vs) # r)))"

record unrolled_model =
  depth :: nat
  trainable :: "(string \<times> real list) list"
  fixed :: "(string \<times> real list) list"

definition unfolded_builder :: "schedule \<Rightarrow> string list \<Rightarrow> nat \<Rightarrow> error + unrolled_model" where
  "unfolded_builder params_algo trainable_params max_iter =
     bind (normalise_schedule max_iter params_algo)
       (\<lambda>s. Inr \<lparr>depth = max_iter,
                  trainable = filter (\<lambda>(k, vs). k \<in> set trainable_params) s,
                  fixed = filter (\<lambda>(k, vs). k \<notin> set trainable_params) s\<rparr>)"

definition named_parameters :: "unrolled_model \<Rightarrow> ((string \<times> nat) \<times> real) list" where
  "named_parameters m =
     concat (map (\<lambda>(k, vs). map (\<lambda>i. ((k, i), vs ! i)) [0..<length vs]) (trainable m))"

text \<open>The value a schedule entry gives to position \<open>i\<close>.\<close>

definition entry_at :: "schedule_entry \<Rightarrow> nat \<Rightarrow> real" where
  "entry_at e i = (case e of Single v \<Rightarrow> v | Sequence vs \<Rightarrow> vs ! i)"

section \<open>Example instances\<close>

text \<open>
  Concrete collaborators and inputs on which the theorems below are exercised: tensors
  with one or two entries, a denoiser and a conjugate-prox that halve their argument,
  linear and non-linear forward operators.
\<close>

definition vec1 :: "real \<Rightarrow> tensor" where
  "vec1 v = \<lparr>shape = [1], data = [v]\<rparr>"

definition vec2 :: "real \<Rightarrow> real \<Rightarrow> tensor" where
  "vec2 v w = \<lparr>shape = [2], data = [v, w]\<rparr>"

definition explicit_prior_of :: "potential \<Rightarrow> prior" where
  "explicit_prior_of g =
     \<lparr>cls = Prior, g_attr = Some g, explicit_prior = True, denoiser = None\<rparr>"

definition half_sq_norm :: potential where
  "half_sq_norm x args =
     Inr \<lparr>shape = [], data = [0.5 * sum_list (map (\<lambda>v. v * v) (data x))]\<rparr>"

definition grad_half_sq_norm :: autograd where
  "grad_half_sq_norm f z = Inr z"

definition halving_denoiser :: denoiser where
  "halving_denoiser x s = Inr (smul (1 / 2) x)"

definition pnp_halving :: prior where
  "pnp_halving =
     \<lparr>cls = PnP, g_attr = None, explicit_prior = False, denoiser = Some halving_denoiser\<rparr>"

definition halving_fidelity :: fidelity where
  "halving_fidelity =
     \<lparr>prox = (\<lambda>p y ph step. Inr (smul (1 / 2) p)),
      prox_d_conjugate = (\<lambda>p y sg lam. Inr (smul (1 / 2) p))\<rparr>"

definition cp_iterator :: "cost_CP optim_iterator" where
  "cp_iterator =
     \<lparr>g_first = False, beta = 1, has_cost = False,
      F_fn = (\<lambda>x p c y ph. Inr 0), data_fidelity = halving_fidelity\<rparr>"

definition cv_iterator :: "cost_CV optim_iterator" where
  "cv_iterator =
     \<lparr>g_first = False, beta = 1, has_cost = False,
      F_fn = (\<lambda>x c y ph. Inr 0), data_fidelity = halving_fidelity\<rparr>"

definition unit_params :: params where
  "unit_params =
     map_of [(''stepsize'', Float 1), (''sigma'', Float 1), (''lambda'', Float 1),
             (''g_param'', Float 0)]"

definition identity_physics :: physics where
  "identity_physics = \<lparr>A = Inr, A_adjoint = Inr\<rparr>"

definition tripling_physics :: physics where
  "tripling_physics = \<lparr>A = (\<lambda>t. Inr (smul 3 t)), A_adjoint = (\<lambda>t. Inr (smul 3 t))\<rparr>"

text \<open>
  A second family, in which every parameter has its own value and every collaborator
  depends on what it is passed: the conjugate-prox of a quadratic data term,
  \<open>(p - sigma * y) * lambda / (lambda + sigma)\<close>; a denoiser that scales by the noise
  level; operators \<open>K\<close> and \<open>K_adjoint\<close> in the dictionary; the potential
  \<open>3/2 ||x||^2\<close> with its gradient \<open>3 x\<close>.
\<close>

definition quadratic_fidelity :: fidelity where
  "quadratic_fidelity =
     \<lparr>prox = (\<lambda>p y ph step. Inr (smul (1 / (1 + step)) p)),
      prox_d_conjugate =
        (\<lambda>p y sg lam. bind (tsub p (smul sg y)) (\<lambda>d. Inr (smul (lam / (lam + sg)) d)))\<rparr>"

definition scaling_denoiser :: denoiser where
  "scaling_denoiser x s = (case s of Float r \<Rightarrow> Inr (smul r x) | Callable f \<Rightarrow> Inl TypeError)"

definition pnp_scaling :: prior where
  "pnp_scaling =
     \<lparr>cls = PnP, g_attr = None, explicit_prior = False, denoiser = Some scaling_denoiser\<rparr>"

definition cp_quadratic :: "cost_CP optim_iterator" where
  "cp_quadratic =
     \<lparr>g_first = False, beta = 1 / 2, has_cost = False,
      F_fn = (\<lambda>x p c y ph. Inr 0), data_fidelity = quadratic_fidelity\<rparr>"

definition cv_quadratic :: "cost_CV optim_iterator" where
  "cv_quadratic =
     \<lparr>g_first = False, beta = 1 / 2, has_cost = False,
      F_fn = (\<lambda>x c y ph. Inr 0), data_fidelity = quadratic_fidelity\<rparr>"

definition tripling :: "tensor \<Rightarrow> error + tensor" where
  "tripling t = Inr (smul 3 t)"

definition operator_params :: params where
  "operator_params =
     map_of [(''stepsize'', Float (1 / 2)), (''sigma'', Float 2), (''lambda'', Float 3),
             (''g_param'', Float (1 / 4)), (''K'', Callable tripling),
             (''K_adjoint'', Callable tripling)]"

definition three_halves_sq_norm :: potential where
  "three_halves_sq_norm x args =
     Inr \<lparr>shape = [], data = [3 / 2 * sum_list (map (\<lambda>v. v * v) (data x))]\<rparr>"

definition grad_three_halves_sq_norm :: autograd where
  "grad_three_halves_sq_norm f z = Inr (smul 3 z)"

definition quarter_step_kwargs :: kwargs where
  "quarter_step_kwargs =
     \<lparr>stepsize_inter = Some (1 / 4), max_iter_inter = Some 5, tol_inter = Some (1 / 100)\<rparr>"

definition three_updates_kwargs :: kwargs where
  "three_updates_kwargs =
     \<lparr>stepsize_inter = None, max_iter_inter = Some 3, tol_inter = None\<rparr>"

definition three_step_schedule :: schedule where
  "three_step_schedule =
     [(''stepsize'', Sequence [1, 1, 1]), (''g_param'', Single (1 / 100)),
      (''lambda'', Sequence [1, 1, 1])]"

section \<open>Basic facts\<close>

lemma bind_Inl [simp]: "bind (Inl e) f = Inl e"
  by (simp add: bind_def)

lemma bind_Inr [simp]: "bind (Inr v) f = f v"
  by (simp add: bind_def)

lemma bind_eq_Inr: "bind m f = Inr r \<longleftrightarrow> (\<exists>v. m = Inr v \<and> f v = Inr r)"
  by (cases m) simp_all

lemma concat_chunk: "length d = n * k \<Longrightarrow> concat (chunk n k d) = d"
  by (induction n arbitrary: d) auto

lemma chunk_lengths: "length d = n * k \<Longrightarrow> c \<in> set (chunk n k d) \<Longrightarrow> length c = k"
proof (induction n arbitrary: d)
  case 0
  then show ?case by simp
next
  case (Suc n)
  have "length (drop k d) = n * k" using Suc.prems(1) by simp
  from Suc.IH[OF this] Suc.prems show ?case by auto
qed

text \<open>Between tensors of one shape nothing is repeated: the operation is entrywise.\<close>

lemma expand_same: "length d = prod_list s \<Longrightarrow> expand s s d = d"
proof (induction s arbitrary: d)
  case Nil
  then show ?case by simp
next
  case (Cons n s)
  have "map (expand s s) (chunk n (prod_list s) d) = chunk n (prod_list s) d"
    using Cons.IH chunk_lengths[of d n "prod_list s"] Cons.prems
    by (simp add: map_idI)
  then show ?case using Cons.prems by (simp add: concat_chunk)
qed

lemma broadcast_rev_same: "broadcast_rev s s = Some s"
  by (induction s) auto

lemma broadcast_shapes_same: "broadcast_shapes s s = Some s"
  by (simp add: broadcast_shapes_def broadcast_rev_same)

lemma tbinop_same_shape:
  "shape a = shape b \<Longrightarrow> wf_tensor a \<Longrightarrow> wf_tensor b \<Longrightarrow>
   tbinop f a b = Inr \<lparr>shape = shape a, data = map2 f (data a) (data b)\<rparr>"
  by (simp add: tbinop_def broadcast_shapes_same expand_same wf_tensor_def)

lemma tbinop_shape:
  "tbinop f a b = Inr c \<Longrightarrow> shape a = shape b \<Longrightarrow> shape c = shape a"
  by (auto simp: tbinop_def broadcast_shapes_same)

lemma shape_smul [simp]: "shape (smul c t) = shape t"
  by (simp add: smul_def)

lemma shape_tdiv [simp]: "shape (tdiv t c) = shape t"
  by (simp add: tdiv_def)

lemma wf_smul [simp]: "wf_tensor (smul c t) = wf_tensor t"
  by (simp add: smul_def wf_tensor_def)

lemma wf_tdiv [simp]: "wf_tensor (tdiv t c) = wf_tensor t"
  by (simp add: tdiv_def wf_tensor_def)

section \<open>Priors\<close>

text \<open>
  C5. For a plug-and-play prior built from a denoiser \<open>D\<close>, \<open>prox(x, gamma, sigma)\<close> is
  \<open>D(x, sigma)\<close>, whatever \<open>gamma\<close> is: two calls that differ only in \<open>gamma\<close> return the
  same result. Both the method \<open>PnP.prox\<close> and the call \<open>prior.prox(...)\<close> on the object.
\<close>

theorem PnP_prox_is_denoiser:
  "bind (PnP_init D g) (\<lambda>p. PnP_prox p x gamma [sigma] kw) = D x sigma
   \<and> bind (PnP_init D g) (\<lambda>p. call_prox ad p x gamma [sigma] kw) = D x sigma
   \<and> bind (PnP_init D g) (\<lambda>p. PnP_prox p x gamma [sigma] kw)
       = bind (PnP_init D g) (\<lambda>p. PnP_prox p x gamma' [sigma] kw)"
  by (simp add: PnP_init_def Prior_init_def call_prox_def PnP_prox_def)

text \<open>
  C4. The class documents the potential \<open>g(x) = 1/2 ||x||_2^2\<close>, and \<open>grad\<close> and \<open>prox\<close>
  are those of that potential; \<open>Tikhonov.g\<close> returns half the norm, not half the squared
  norm. On the 1 x 1 tensor with entry 2 it returns 1, while half the squared norm is 2.
\<close>

theorem Tikhonov_g_half_norm:
  "Tikhonov_g \<lparr>shape = [1, 1], data = [2]\<rparr> = Inr \<lparr>shape = [1], data = [1]\<rparr>
   \<and> 0.5 * (tnorm \<lparr>shape = [1, 1], data = [2]\<rparr>)\<^sup>2 = 2"
  by (simp add: Tikhonov_g_def tnorm_def)

text \<open>
  C7, the claim as stated, refuted: building a \<open>Prior\<close> with \<open>g = None\<close> raises nothing; it
  returns an object whose \<open>explicit_prior\<close> is false.
\<close>

theorem Prior_init_None_accepted:
  "Prior_init None
     = Inr \<lparr>cls = Prior, g_attr = None, explicit_prior = False, denoiser = None\<rparr>"
  by (simp add: Prior_init_def)

lemma gd_loop_first_raises:
  "0 < n \<Longrightarrow> grad_f z = Inl e \<Longrightarrow> gd_loop grad_f step_size tol n k z = Inl e"
  by (cases n) (simp_all add: gd_update_def)

text \<open>
  C7, amended: the base class accepts \<open>g = None\<close> (it is also the base of the implicit
  priors), and the failure is deferred to the first use: on that object \<open>g\<close>, \<open>forward\<close>,
  \<open>grad\<close> and, with the default inner settings, \<open>prox\<close> each raise a \<open>TypeError\<close>, the call
  of \<open>None\<close>.
\<close>

theorem Prior_without_potential_fails_at_call:
  "Prior_init None
     = Inr \<lparr>cls = Prior, g_attr = None, explicit_prior = False, denoiser = None\<rparr>
   \<and> Prior_g \<lparr>cls = Prior, g_attr = None, explicit_prior = False, denoiser = None\<rparr> x args
       = Inl TypeError
   \<and> Prior_forward \<lparr>cls = Prior, g_attr = None, explicit_prior = False, denoiser = None\<rparr>
         x args = Inl TypeError
   \<and> Prior_grad ad \<lparr>cls = Prior, g_attr = None, explicit_prior = False, denoiser = None\<rparr>
         x args = Inl TypeError
   \<and> Prior_prox ad \<lparr>cls = Prior, g_attr = None, explicit_prior = False, denoiser = None\<rparr>
         x gamma args no_kwargs = Inl TypeError"
  by (simp add: Prior_init_def Prior_g_def Prior_forward_def call_g_def Prior_grad_def
      Prior_prox_def gradient_descent_def prox_objective_grad_def call_grad_def
      no_kwargs_def default_def gd_loop_first_raises)

section \<open>The inner gradient descent\<close>

lemma tbinop_same_shape_ex:
  "shape a = shape b \<Longrightarrow> \<exists>c. tbinop f a b = Inr c \<and> shape c = shape a"
  by (simp add: tbinop_def broadcast_shapes_same)

text \<open>
  When the gradient never raises and keeps the shape of its argument, neither does the
  loop: it returns.
\<close>

lemma gd_loop_returns:
  assumes "\<And>z. shape z = shape x \<Longrightarrow> \<exists>g. grad_f z = Inr g \<and> shape g = shape x"
  shows "shape z = shape x \<Longrightarrow>
           \<exists>z' k'. gd_loop grad_f step_size tol n k z = Inr (z', k') \<and> shape z' = shape x"
proof (induction n arbitrary: k z)
  case 0
  then show ?case by simp
next
  case (Suc n)
  from assms[OF Suc.prems] obtain g where g: "grad_f z = Inr g" "shape g = shape x" by blast
  from tbinop_same_shape_ex[of z "smul step_size g" "(-)"] Suc.prems g
  obtain z1 where z1: "tsub z (smul step_size g) = Inr z1" "shape z1 = shape x"
    by (auto simp: tsub_def)
  from tbinop_same_shape_ex[of z1 z "(-)"] Suc.prems z1
  obtain d where d: "tsub z1 z = Inr d" by (auto simp: tsub_def)
  from Suc.IH[OF z1(2)] obtain z' k' where
    "gd_loop grad_f step_size tol n (Suc k) z1 = Inr (z', k')" "shape z' = shape x" by blast
  with g z1 d show ?case by (simp add: gd_update_def)
qed

lemma gd_iterate_Suc_shift:
  "gd_update grad_f step_size z = Inr z1 \<Longrightarrow>
   gd_iterate grad_f step_size (Suc j) z = gd_iterate grad_f step_size j z1"
  by simp

lemma gd_distance_first:
  "gd_update grad_f step_size z = Inr z1 \<Longrightarrow> tsub z1 z = Inr d \<Longrightarrow>
   gd_distance grad_f step_size z (Suc 0) = Inr (tnorm d)"
  by (simp add: gd_distance_def)

lemma gd_distance_shift:
  "gd_update grad_f step_size z = Inr z1 \<Longrightarrow> 0 < j \<Longrightarrow>
   gd_distance grad_f step_size z (Suc j) = gd_distance grad_f step_size z1 j"
  by (cases j) (simp_all add: gd_distance_def)

lemma gd_loop_stops:
  "gd_loop grad_f step_size tol n k z = Inr (z', k') \<Longrightarrow>
   \<exists>m. k' = k + m \<and> m \<le> n \<and> (0 < n \<longrightarrow> 0 < m)
     \<and> gd_iterate grad_f step_size m z = Inr z'
     \<and> (m < n \<longrightarrow> (\<exists>r. gd_distance grad_f step_size z m = Inr r \<and> r < tol))
     \<and> (\<forall>j. 0 < j \<and> j < m \<longrightarrow>
           (\<exists>r. gd_distance grad_f step_size z j = Inr r \<and> \<not> r < tol))"
proof (induction grad_f step_size tol n k z rule: gd_loop.induct)
  case (1 grad_f step_size tol k z)
  then show ?case by simp
next
  case (2 grad_f step_size tol n k z)
  from "2.prems" obtain z1 d where
    u: "gd_update grad_f step_size z = Inr z1" and d: "tsub z1 z = Inr d"
    by (auto split: sum.splits)
  note first = gd_distance_first[OF u d]
  show ?case
  proof (cases "tnorm d < tol")
    case True
    with "2.prems" u d have e: "z' = z1" "k' = Suc k" by auto
    show ?thesis
    proof (intro exI[of _ "Suc 0"] conjI allI impI)
      show "k' = k + Suc 0" using e by simp
      show "Suc 0 \<le> Suc n" by simp
      show "0 < Suc 0" by simp
      show "gd_iterate grad_f step_size (Suc 0) z = Inr z'" using u e by simp
      show "\<exists>r. gd_distance grad_f step_size z (Suc 0) = Inr r \<and> r < tol"
        using first True by simp
    next
      fix j assume "0 < j \<and> j < Suc 0"
      then show "\<exists>r. gd_distance grad_f step_size z j = Inr r \<and> \<not> r < tol" by auto
    qed
  next
    case False
    with "2.prems" u d have "gd_loop grad_f step_size tol n (Suc k) z1 = Inr (z', k')"
      by simp
    from "2.IH"[OF u d False this] obtain m where
      m: "k' = Suc k + m" "m \<le> n" "0 < n \<longrightarrow> 0 < m"
        "gd_iterate grad_f step_size m z1 = Inr z'"
        "m < n \<longrightarrow> (\<exists>r. gd_distance grad_f step_size z1 m = Inr r \<and> r < tol)"
        "\<forall>j. 0 < j \<and> j < m \<longrightarrow>
           (\<exists>r. gd_distance grad_f step_size z1 j = Inr r \<and> \<not> r < tol)"
      by blast
    show ?thesis
    proof (intro exI[of _ "Suc m"] conjI allI impI)
      show "k' = k + Suc m" using m(1) by simp
      show "Suc m \<le> Suc n" using m(2) by simp
      show "0 < Suc m" by simp
      show "gd_iterate grad_f step_size (Suc m) z = Inr z'" using u m(4) by simp
    next
      assume "Suc m < Suc n"
      then have "m < n" "0 < m" using m(3) by auto
      with m(5) gd_distance_shift[OF u, of m]
      show "\<exists>r. gd_distance grad_f step_size z (Suc m) = Inr r \<and> r < tol" by simp
    next
      fix j assume j: "0 < j \<and> j < Suc m"
      show "\<exists>r. gd_distance grad_f step_size z j = Inr r \<and> \<not> r < tol"
      proof (cases "j = Suc 0")
        case True
        with first False show ?thesis by simp
      next
        case False
        with j obtain i where i: "j = Suc i" "0 < i" "i < m" by (cases j) auto
        with m(6) gd_distance_shift[OF u, of i] show ?thesis by simp
      qed
    qed
  qed
qed



text \<open>
  C6. For a prior built from an explicit potential \<open>g\<close> alone, \<open>prox(x, gamma)\<close> is the
  inner gradient descent, started at \<open>x\<close>, on the map
  \<open>z \<mapsto> gamma * grad(z) + (z - x)\<close>, where \<open>grad(z)\<close> is the automatic
  differentiation of \<open>g\<close> at \<open>z\<close>. Its stepsize, cap and tolerance are the keyword
  arguments \<open>stepsize_inter\<close>, \<open>max_iter_inter\<close> and \<open>tol_inter\<close> where they are passed
  and 1, 50 and 1/1000 where they are not. When \<open>prox\<close> returns, it returns the iterate
  after \<open>k\<close> updates, where \<open>k\<close> is at most the cap, at least one update is made when
  the cap is positive, no update before the \<open>k\<close>-th met the tolerance, and the \<open>k\<close>-th
  met it unless the cap was reached. It returns whenever the potential and its gradient
  return and the gradient has the shape of its argument.
\<close>

theorem Prior_prox_inner_descent:
  assumes "Prior_init (Some g) = Inr p"
  shows "prox_objective_grad ad p x gamma args z
           = bind (bind (g z args) (\<lambda>v. ad (\<lambda>w. g w args) z))
               (\<lambda>gz. bind (tsub z x) (\<lambda>d. tadd (smul gamma gz) d))
       \<and> Prior_prox ad p x gamma args kw
           = gradient_descent (prox_objective_grad ad p x gamma args) x
               (case stepsize_inter kw of None \<Rightarrow> 1 | Some s \<Rightarrow> s)
               (case max_iter_inter kw of None \<Rightarrow> 50 | Some n \<Rightarrow> n)
               (case tol_inter kw of None \<Rightarrow> 1 / 1000 | Some t \<Rightarrow> t)
       \<and> call_prox ad p x gamma args kw = Prior_prox ad p x gamma args kw
       \<and> (\<forall>r. Prior_prox ad p x gamma args kw = Inr r \<longrightarrow>
            (\<exists>k. k \<le> (case max_iter_inter kw of None \<Rightarrow> 50 | Some n \<Rightarrow> n)
               \<and> (0 < (case max_iter_inter kw of None \<Rightarrow> 50 | Some n \<Rightarrow> n) \<longrightarrow> 0 < k)
               \<and> gd_iterate (prox_objective_grad ad p x gamma args)
                    (case stepsize_inter kw of None \<Rightarrow> 1 | Some s \<Rightarrow> s) k x = Inr r
               \<and> (k < (case max_iter_inter kw of None \<Rightarrow> 50 | Some n \<Rightarrow> n) \<longrightarrow>
                    (\<exists>c. gd_distance (prox_objective_grad ad p x gamma args)
                           (case stepsize_inter kw of None \<Rightarrow> 1 | Some s \<Rightarrow> s) x k = Inr c
                         \<and> c < (case tol_inter kw of None \<Rightarrow> 1 / 1000 | Some t \<Rightarrow> t)))
               \<and> (\<forall>j. 0 < j \<and> j < k \<longrightarrow>
                    (\<exists>c. gd_distance (prox_objective_grad ad p x gamma args)
                           (case stepsize_inter kw of None \<Rightarrow> 1 | Some s \<Rightarrow> s) x j = Inr c
                         \<and> \<not> c < (case tol_inter kw of None \<Rightarrow> 1 / 1000 | Some t \<Rightarrow> t)))))
       \<and> ((\<forall>w. shape w = shape x \<longrightarrow>
              (\<exists>v gw. g w args = Inr v \<and> ad (\<lambda>w'. g w' args) w = Inr gw \<and> shape gw = shape w))
            \<longrightarrow> (\<exists>r. Prior_prox ad p x gamma args kw = Inr r))"
proof -
  let ?G = "prox_objective_grad ad p x gamma args"
  let ?s = "case stepsize_inter kw of None \<Rightarrow> 1 | Some s \<Rightarrow> s"
  let ?n = "case max_iter_inter kw of None \<Rightarrow> 50 | Some n \<Rightarrow> n"
  let ?t = "case tol_inter kw of None \<Rightarrow> 1 / 1000 | Some t \<Rightarrow> (t::real)"
  have c: "cls p = Prior" and ga: "g_attr p = Some g"
    using assms by (auto simp: Prior_init_def)
  have grad: "Prior_grad ad p w args = bind (g w args) (\<lambda>v. ad (\<lambda>w'. g w' args) w)" for w
    using c ga by (simp add: Prior_grad_def call_g_def Prior_g_def)
  have G: "?G w = bind (bind (g w args) (\<lambda>v. ad (\<lambda>w'. g w' args) w))
               (\<lambda>gz. bind (tsub w x) (\<lambda>d. tadd (smul gamma gz) d))" for w
    using c by (simp add: prox_objective_grad_def call_grad_def grad)
  note 1 = G[of z]
  have 2: "Prior_prox ad p x gamma args kw = gradient_descent ?G x ?s ?n ?t"
    by (simp add: Prior_prox_def default_def)
  have 3: "call_prox ad p x gamma args kw = Prior_prox ad p x gamma args kw"
    using c by (simp add: call_prox_def)
  have 4: "\<exists>k. k \<le> ?n \<and> (0 < ?n \<longrightarrow> 0 < k) \<and> gd_iterate ?G ?s k x = Inr r
               \<and> (k < ?n \<longrightarrow> (\<exists>c. gd_distance ?G ?s x k = Inr c \<and> c < ?t))
               \<and> (\<forall>j. 0 < j \<and> j < k \<longrightarrow> (\<exists>c. gd_distance ?G ?s x j = Inr c \<and> \<not> c < ?t))"
    if "Prior_prox ad p x gamma args kw = Inr r" for r
  proof -
    from that obtain k where "gd_loop ?G ?s ?t ?n 0 x = Inr (r, k)"
      unfolding 2 gradient_descent_def by (auto simp: bind_eq_Inr)
    from gd_loop_stops[OF this] show ?thesis by auto
  qed
  have 5: "\<exists>r. Prior_prox ad p x gamma args kw = Inr r"
    if h: "\<forall>w. shape w = shape x \<longrightarrow>
              (\<exists>v gw. g w args = Inr v \<and> ad (\<lambda>w'. g w' args) w = Inr gw \<and> shape gw = shape w)"
  proof -
    have "\<exists>gr. ?G w = Inr gr \<and> shape gr = shape x" if w: "shape w = shape x" for w
    proof -
      from h w obtain v gw where gw: "g w args = Inr v" "ad (\<lambda>w'. g w' args) w = Inr gw"
        "shape gw = shape w"
        by blast
      from tbinop_same_shape_ex[of w x "(-)"] w
      obtain d where d: "tsub w x = Inr d" "shape d = shape w" by (auto simp: tsub_def)
      from tbinop_same_shape_ex[of "smul gamma gw" d "(+)"] gw d
      obtain e where "tadd (smul gamma gw) d = Inr e" "shape e = shape gw"
        by (auto simp: tadd_def)
      with gw d w show ?thesis by (simp add: G)
    qed
    from gd_loop_returns[of x ?G, OF this, of x ?s ?t ?n 0]
    obtain r k where "gd_loop ?G ?s ?t ?n 0 x = Inr (r, k)" by blast
    then show ?thesis unfolding 2 gradient_descent_def by simp
  qed
  from 1 2 3 4 5 show ?thesis by blast
qed

lemma gd_two_cycle:
  "gd_loop (prox_objective_grad grad_half_sq_norm (explicit_prior_of half_sq_norm) (vec1 2) 1 [])
     1 (1 / 1000) (Suc (Suc n)) k (vec1 2)
   = gd_loop (prox_objective_grad grad_half_sq_norm (explicit_prior_of half_sq_norm) (vec1 2) 1 [])
     1 (1 / 1000) n (Suc (Suc k)) (vec1 2)"
  by (simp add: gd_update_def prox_objective_grad_def call_grad_def Prior_grad_def call_g_def
      Prior_g_def explicit_prior_of_def half_sq_norm_def grad_half_sq_norm_def vec1_def
      tsub_def tadd_def tbinop_def broadcast_shapes_def smul_def tnorm_def)

lemma gd_even_budget:
  "gd_loop (prox_objective_grad grad_half_sq_norm (explicit_prior_of half_sq_norm) (vec1 2) 1 [])
     1 (1 / 1000) (2 * m) k (vec1 2) = Inr (vec1 2, k + 2 * m)"
proof (induction m arbitrary: k)
  case 0
  then show ?case by simp
next
  case (Suc m)
  have "2 * Suc m = Suc (Suc (2 * m))" by simp
  then show ?case using Suc[of "Suc (Suc k)"] by (simp only: gd_two_cycle) simp
qed

lemma tnorm_single: "tnorm \<lparr>shape = s, data = [v]\<rparr> = \<bar>v\<bar>"
  by (simp add: tnorm_def)

lemmas descent_eval = gd_update_def prox_objective_grad_def call_grad_def Prior_grad_def
  call_g_def Prior_g_def explicit_prior_of_def three_halves_sq_norm_def
  grad_three_halves_sq_norm_def vec1_def tsub_def tadd_def tbinop_def broadcast_shapes_def
  smul_def tnorm_single

lemma quarter_step_run:
  "gd_loop (prox_objective_grad grad_three_halves_sq_norm
              (explicit_prior_of three_halves_sq_norm) (vec1 2) 1 [])
     (1 / 4) (1 / 100) 5 0 (vec1 2) = Inr (vec1 (1 / 2), 2)"
  by (simp add: eval_nat_numeral descent_eval)

lemma three_updates_run:
  "gd_loop (prox_objective_grad grad_three_halves_sq_norm
              (explicit_prior_of three_halves_sq_norm) (vec1 2) 1 [])
     1 (1 / 1000) 3 0 (vec1 2) = Inr (vec1 (- 40), 3)"
  by (simp add: eval_nat_numeral descent_eval)

text \<open>
  Three runs. With the potential \<open>3/2 ||x||^2\<close>, \<open>gamma = 1\<close>, the tensor 2 and the passed
  stepsize 1/4, cap 5 and tolerance 1/100, the descent reaches the prox 1/2 and stops by
  the tolerance after 2 updates. With the passed cap 3 and the default stepsize 1 it
  diverges and stops at the cap, on - 40. With the potential \<open>1/2 ||x||^2\<close> and no keyword
  argument it oscillates between 2 and 0 and stops at the default cap, after 50 updates.
\<close>

theorem Prior_prox_inner_descent_witness:
  "Prior_init (Some three_halves_sq_norm) = Inr (explicit_prior_of three_halves_sq_norm)
   \<and> Prior_prox grad_three_halves_sq_norm (explicit_prior_of three_halves_sq_norm) (vec1 2) 1 []
       quarter_step_kwargs = Inr (vec1 (1 / 2))
   \<and> (\<exists>k. k \<le> 5 \<and> 0 < k
        \<and> gd_iterate (prox_objective_grad grad_three_halves_sq_norm
              (explicit_prior_of three_halves_sq_norm) (vec1 2) 1 []) (1 / 4) k (vec1 2)
            = Inr (vec1 (1 / 2)))
   \<and> Prior_prox grad_three_halves_sq_norm (explicit_prior_of three_halves_sq_norm) (vec1 2) 1 []
       three_updates_kwargs = Inr (vec1 (- 40))
   \<and> gd_loop (prox_objective_grad grad_three_halves_sq_norm
              (explicit_prior_of three_halves_sq_norm) (vec1 2) 1 [])
        1 (1 / 1000) 3 0 (vec1 2) = Inr (vec1 (- 40), 3)
   \<and> Prior_prox grad_half_sq_norm (explicit_prior_of half_sq_norm) (vec1 2) 1 [] no_kwargs
       = Inr (vec1 2)
   \<and> gd_loop (prox_objective_grad grad_half_sq_norm (explicit_prior_of half_sq_norm) (vec1 2) 1 [])
       1 (1 / 1000) 50 0 (vec1 2) = Inr (vec1 2, 50)
   \<and> (\<exists>r. Prior_prox grad_three_halves_sq_norm (explicit_prior_of three_halves_sq_norm)
             (vec1 2) 1 [] no_kwargs = Inr r)"
proof -
  let ?p = "explicit_prior_of three_halves_sq_norm"
  let ?G = "prox_objective_grad grad_three_halves_sq_norm ?p (vec1 2) 1 []"
  have h: "Prior_init (Some three_halves_sq_norm) = Inr ?p"
    by (simp add: Prior_init_def explicit_prior_of_def)
  have kw: "(case stepsize_inter quarter_step_kwargs of None \<Rightarrow> 1 | Some s \<Rightarrow> s) = 1 / 4"
    "(case max_iter_inter quarter_step_kwargs of None \<Rightarrow> 50 | Some n \<Rightarrow> n) = 5"
    "(case tol_inter quarter_step_kwargs of None \<Rightarrow> 1 / 1000 | Some t \<Rightarrow> t) = 1 / 100"
    by (simp_all add: quarter_step_kwargs_def)
  note T = Prior_prox_inner_descent[OF h, of grad_three_halves_sq_norm "vec1 2" 1 "[]"
      "vec1 2" quarter_step_kwargs]
  have a: "Prior_prox grad_three_halves_sq_norm ?p (vec1 2) 1 [] quarter_step_kwargs
             = Inr (vec1 (1 / 2))"
    using quarter_step_run
    by (simp only: T[THEN conjunct2, THEN conjunct1] kw gradient_descent_def bind_Inr fst_conv)
  from T[THEN conjunct2, THEN conjunct2, THEN conjunct2, THEN conjunct1, rule_format, OF a]
  obtain k where k: "k \<le> (case max_iter_inter quarter_step_kwargs of None \<Rightarrow> 50 | Some n \<Rightarrow> n)"
      "0 < (case max_iter_inter quarter_step_kwargs of None \<Rightarrow> 50 | Some n \<Rightarrow> n) \<longrightarrow> 0 < k"
      "gd_iterate ?G (case stepsize_inter quarter_step_kwargs of None \<Rightarrow> 1 | Some s \<Rightarrow> s) k
           (vec1 2) = Inr (vec1 (1 / 2))"
    by (elim exE conjE)
  have b: "\<exists>k. k \<le> 5 \<and> 0 < k \<and> gd_iterate ?G (1 / 4) k (vec1 2) = Inr (vec1 (1 / 2))"
    using k unfolding kw by (intro exI[of _ k]) simp
  have c: "Prior_prox grad_three_halves_sq_norm ?p (vec1 2) 1 [] three_updates_kwargs
             = Inr (vec1 (- 40))"
    using three_updates_run
    by (simp add: Prior_prox_def gradient_descent_def default_def three_updates_kwargs_def)
  have d: "gd_loop (prox_objective_grad grad_half_sq_norm (explicit_prior_of half_sq_norm)
             (vec1 2) 1 []) 1 (1 / 1000) 50 0 (vec1 2) = Inr (vec1 2, 50)"
    using gd_even_budget[of 25 0] by simp
  have e: "Prior_prox grad_half_sq_norm (explicit_prior_of half_sq_norm) (vec1 2) 1 [] no_kwargs
             = Inr (vec1 2)"
    using d by (simp add: Prior_prox_def gradient_descent_def no_kwargs_def default_def)
  have g: "\<forall>w. shape w = shape (vec1 2) \<longrightarrow>
             (\<exists>v gw. three_halves_sq_norm w [] = Inr v
                \<and> grad_three_halves_sq_norm (\<lambda>w'. three_halves_sq_norm w' []) w = Inr gw
                \<and> shape gw = shape w)"
    by (simp add: three_halves_sq_norm_def grad_three_halves_sq_norm_def)
  have f: "\<exists>r. Prior_prox grad_three_halves_sq_norm ?p (vec1 2) 1 [] no_kwargs = Inr r"
    by (rule mp[OF Prior_prox_inner_descent[OF h, of grad_three_halves_sq_norm "vec1 2" 1 "[]"
      "vec1 2" no_kwargs, THEN conjunct2, THEN conjunct2, THEN conjunct2, THEN conjunct2] g])
  from h a b c three_updates_run d e f show ?thesis by (intro conjI)
qed

section \<open>The Chambolle-Pock iteration\<close>

lemma fStepCP_dual:
  "\<not> g_first it \<Longrightarrow>
   fStepCP_forward it u w y phys cur_params = Inr r \<longleftrightarrow>
     (\<exists>sg lam p. get_float cur_params ''sigma'' = Inr sg
        \<and> get_float cur_params ''lambda'' = Inr lam
        \<and> tadd u (smul sg w) = Inr p
        \<and> prox_d_conjugate (data_fidelity it) p y sg lam = Inr r)"
  unfolding fStepCP_forward_def by (simp add: bind_eq_Inr) blast

lemma gStepCP_primal:
  "\<not> g_first it \<Longrightarrow>
   gStepCP_forward ad it x w cur_prior cur_params = Inr r \<longleftrightarrow>
     (\<exists>tau gp q. get_float cur_params ''stepsize'' = Inr tau
        \<and> getitem cur_params ''g_param'' = Inr gp
        \<and> tsub x (smul tau w) = Inr q
        \<and> call_prox ad cur_prior q tau [gp] no_kwargs = Inr r)"
  unfolding gStepCP_forward_def by (simp add: bind_eq_Inr) blast

lemma CP_forward_unfold:
  "\<not> g_first it \<Longrightarrow>
   CPIteration_forward ad it \<lparr>est = [x, z, u], cost = c\<rparr> cur_prior cur_params y phys = Inr X'
   \<longleftrightarrow> (\<exists>Kz u_new Ku x_new d z_new F.
          apply_or_id cur_params ''K'' z = Inr Kz
        \<and> fStepCP_forward it u Kz y phys cur_params = Inr u_new
        \<and> apply_or_id cur_params ''K_adjoint'' u_new = Inr Ku
        \<and> gStepCP_forward ad it x Ku cur_prior cur_params = Inr x_new
        \<and> tsub x_new x = Inr d
        \<and> tadd x_new (smul (beta it) d) = Inr z_new
        \<and> (if has_cost it
            then bind (F_fn it x_new cur_prior cur_params y phys) (\<lambda>v. Inr (Some v))
            else Inr None) = Inr F
        \<and> X' = \<lparr>est = [x_new, z_new, u_new], cost = F\<rparr>)"
  unfolding CPIteration_forward_def by (simp add: bind_eq_Inr) blast


text \<open>
  The iteration with \<open>g_first = False\<close>, in terms of the lookups in the dictionary.
\<close>

lemma CP_step_lookups:
  assumes "\<not> g_first it"
  shows "(CPIteration_forward ad it \<lparr>est = [x, z, u], cost = c\<rparr> cur_prior cur_params y phys
            = Inr X'
          \<longleftrightarrow> (\<exists>sg lam tau gp Kz p u_new Ku q x_new d z_new F.
                get_float cur_params ''sigma'' = Inr sg
              \<and> get_float cur_params ''lambda'' = Inr lam
              \<and> get_float cur_params ''stepsize'' = Inr tau
              \<and> getitem cur_params ''g_param'' = Inr gp
              \<and> apply_or_id cur_params ''K'' z = Inr Kz
              \<and> tadd u (smul sg Kz) = Inr p
              \<and> prox_d_conjugate (data_fidelity it) p y sg lam = Inr u_new
              \<and> apply_or_id cur_params ''K_adjoint'' u_new = Inr Ku
              \<and> tsub x (smul tau Ku) = Inr q
              \<and> call_prox ad cur_prior q tau [gp] no_kwargs = Inr x_new
              \<and> tsub x_new x = Inr d
              \<and> tadd x_new (smul (beta it) d) = Inr z_new
              \<and> (if has_cost it
                  then bind (F_fn it x_new cur_prior cur_params y phys) (\<lambda>v. Inr (Some v))
                  else Inr None) = Inr F
              \<and> X' = \<lparr>est = [x_new, z_new, u_new], cost = F\<rparr>))
         \<and> (cur_params ''K'' = None \<longrightarrow> apply_or_id cur_params ''K'' t = Inr t)
         \<and> (cur_params ''K_adjoint'' = None \<longrightarrow> apply_or_id cur_params ''K_adjoint'' t = Inr t)"
proof (intro conjI iffI)
  assume "CPIteration_forward ad it \<lparr>est = [x, z, u], cost = c\<rparr> cur_prior cur_params y phys
            = Inr X'"
  then obtain Kz u_new Ku x_new d z_new F where
    1: "apply_or_id cur_params ''K'' z = Inr Kz"
    and 2: "fStepCP_forward it u Kz y phys cur_params = Inr u_new"
    and 3: "apply_or_id cur_params ''K_adjoint'' u_new = Inr Ku"
    and 4: "gStepCP_forward ad it x Ku cur_prior cur_params = Inr x_new"
    and 5: "tsub x_new x = Inr d" "tadd x_new (smul (beta it) d) = Inr z_new"
      "(if has_cost it
            then bind (F_fn it x_new cur_prior cur_params y phys) (\<lambda>v. Inr (Some v))
            else Inr None) = Inr F"
      "X' = \<lparr>est = [x_new, z_new, u_new], cost = F\<rparr>"
    unfolding CP_forward_unfold[OF assms] by blast
  from 2 obtain sg lam p where
    6: "get_float cur_params ''sigma'' = Inr sg" "get_float cur_params ''lambda'' = Inr lam"
      "tadd u (smul sg Kz) = Inr p" "prox_d_conjugate (data_fidelity it) p y sg lam = Inr u_new"
    unfolding fStepCP_dual[OF assms] by blast
  from 4 obtain tau gp q where
    7: "get_float cur_params ''stepsize'' = Inr tau" "getitem cur_params ''g_param'' = Inr gp"
      "tsub x (smul tau Ku) = Inr q" "call_prox ad cur_prior q tau [gp] no_kwargs = Inr x_new"
    unfolding gStepCP_primal[OF assms] by blast
  show "\<exists>sg lam tau gp Kz p u_new Ku q x_new d z_new F.
                get_float cur_params ''sigma'' = Inr sg
              \<and> get_float cur_params ''lambda'' = Inr lam
              \<and> get_float cur_params ''stepsize'' = Inr tau
              \<and> getitem cur_params ''g_param'' = Inr gp
              \<and> apply_or_id cur_params ''K'' z = Inr Kz
              \<and> tadd u (smul sg Kz) = Inr p
              \<and> prox_d_conjugate (data_fidelity it) p y sg lam = Inr u_new
              \<and> apply_or_id cur_params ''K_adjoint'' u_new = Inr Ku
              \<and> tsub x (smul tau Ku) = Inr q
              \<and> call_prox ad cur_prior q tau [gp] no_kwargs = Inr x_new
              \<and> tsub x_new x = Inr d
              \<and> tadd x_new (smul (beta it) d) = Inr z_new
              \<and> (if has_cost it
                  then bind (F_fn it x_new cur_prior cur_params y phys) (\<lambda>v. Inr (Some v))
                  else Inr None) = Inr F
              \<and> X' = \<lparr>est = [x_new, z_new, u_new], cost = F\<rparr>"
    using 1 3 5 6 7 by (intro exI conjI)
next
  assume "\<exists>sg lam tau gp Kz p u_new Ku q x_new d z_new F.
                get_float cur_params ''sigma'' = Inr sg
              \<and> get_float cur_params ''lambda'' = Inr lam
              \<and> get_float cur_params ''stepsize'' = Inr tau
              \<and> getitem cur_params ''g_param'' = Inr gp
              \<and> apply_or_id cur_params ''K'' z = Inr Kz
              \<and> tadd u (smul sg Kz) = Inr p
              \<and> prox_d_conjugate (data_fidelity it) p y sg lam = Inr u_new
              \<and> apply_or_id cur_params ''K_adjoint'' u_new = Inr Ku
              \<and> tsub x (smul tau Ku) = Inr q
              \<and> call_prox ad cur_prior q tau [gp] no_kwargs = Inr x_new
              \<and> tsub x_new x = Inr d
              \<and> tadd x_new (smul (beta it) d) = Inr z_new
              \<and> (if has_cost it
                  then bind (F_fn it x_new cur_prior cur_params y phys) (\<lambda>v. Inr (Some v))
                  else Inr None) = Inr F
              \<and> X' = \<lparr>est = [x_new, z_new, u_new], cost = F\<rparr>"
  then obtain sg lam tau gp Kz p u_new Ku q x_new d z_new F where
    h: "get_float cur_params ''sigma'' = Inr sg"
       "get_float cur_params ''lambda'' = Inr lam"
       "get_float cur_params ''stepsize'' = Inr tau"
       "getitem cur_params ''g_param'' = Inr gp"
       "apply_or_id cur_params ''K'' z = Inr Kz"
       "tadd u (smul sg Kz) = Inr p"
       "prox_d_conjugate (data_fidelity it) p y sg lam = Inr u_new"
       "apply_or_id cur_params ''K_adjoint'' u_new = Inr Ku"
       "tsub x (smul tau Ku) = Inr q"
       "call_prox ad cur_prior q tau [gp] no_kwargs = Inr x_new"
       "tsub x_new x = Inr d"
       "tadd x_new (smul (beta it) d) = Inr z_new"
       "(if has_cost it
                  then bind (F_fn it x_new cur_prior cur_params y phys) (\<lambda>v. Inr (Some v))
                  else Inr None) = Inr F"
       "X' = \<lparr>est = [x_new, z_new, u_new], cost = F\<rparr>"
    by (elim exE conjE)
  have f: "fStepCP_forward it u Kz y phys cur_params = Inr u_new"
    using assms h(1,2,6,7) by (simp add: fStepCP_forward_def)
  have g: "gStepCP_forward ad it x Ku cur_prior cur_params = Inr x_new"
    using assms h(3,4,9,10) by (simp add: gStepCP_forward_def)
  show "CPIteration_forward ad it \<lparr>est = [x, z, u], cost = c\<rparr> cur_prior cur_params y phys
            = Inr X'"
    using assms f g h(5,8,11,12,13,14) by (simp add: CPIteration_forward_def)
next
  show "cur_params ''K'' = None \<longrightarrow> apply_or_id cur_params ''K'' t = Inr t"
    by (simp add: apply_or_id_def)
next
  show "cur_params ''K_adjoint'' = None \<longrightarrow> apply_or_id cur_params ''K_adjoint'' t = Inr t"
    by (simp add: apply_or_id_def)
qed


text \<open>Unfolding the example instances, the tensor operations and the lookups.\<close>

lemmas example_defs = cp_iterator_def cv_iterator_def halving_fidelity_def
  pnp_halving_def halving_denoiser_def unit_params_def identity_physics_def
  tripling_physics_def vec1_def vec2_def

lemmas tensor_eval = tadd_def tsub_def tbinop_def broadcast_shapes_def smul_def
  numeral_2_eq_2

lemmas lookup_eval = apply_or_id_def get_float_def getitem_def call_prox_def PnP_prox_def
  no_kwargs_def

lemma get_float_iff: "get_float d k = Inr r \<longleftrightarrow> d k = Some (Float r)"
  by (auto simp: get_float_def getitem_def split: option.splits pyval.splits)

lemma getitem_iff: "getitem d k = Inr v \<longleftrightarrow> d k = Some v"
  by (auto simp: getitem_def split: option.splits)

lemma apply_or_id_iff:
  "apply_or_id d k x = Inr r \<longleftrightarrow>
     (d k = None \<and> r = x \<or> (\<exists>f. d k = Some (Callable f) \<and> f x = Inr r))"
  by (auto simp: apply_or_id_def split: option.splits pyval.splits)

lemma cost_iff:
  "(if hc then bind m (\<lambda>v. Inr (Some v)) else Inr None) = Inr F \<longleftrightarrow>
     (hc \<and> (\<exists>v. m = Inr v \<and> F = Some v) \<or> \<not> hc \<and> F = None)"
  by (auto simp: bind_eq_Inr)

text \<open>
  C1. With \<open>g_first = False\<close>, a call on the state \<open>(x, z, u)\<close> returns exactly when each
  of its parts does, and then it returns \<open>(x_new, z_new, u_new)\<close> where \<open>u_new\<close> is the
  data-fidelity's conjugate-prox, with stepsize \<open>sigma\<close> and weight \<open>lambda\<close>, at
  \<open>u + sigma * K(z)\<close>; \<open>x_new\<close> is the prior's prox, with stepsize \<open>tau\<close> and the extra
  argument \<open>g_param\<close>, at \<open>x - tau * K_adjoint(u_new)\<close>; and
  \<open>z_new = x_new + beta * (x_new - x)\<close>. Here \<open>sigma\<close>, \<open>lambda\<close>, \<open>tau\<close> and \<open>g_param\<close>
  are the entries \<open>"sigma"\<close>, \<open>"lambda"\<close>, \<open>"stepsize"\<close> and \<open>"g_param"\<close> of the
  dictionary; \<open>K\<close> and \<open>K_adjoint\<close> are its entries \<open>"K"\<close> and \<open>"K_adjoint"\<close> where it has
  them and the identity where it has not; the cost is \<open>F_fn\<close> at \<open>x_new\<close> when
  \<open>has_cost\<close> is set and \<open>None\<close> otherwise.
\<close>

theorem CP_step_g_first_False:
  assumes "\<not> g_first it"
  shows "CPIteration_forward ad it \<lparr>est = [x, z, u], cost = c\<rparr> cur_prior cur_params y phys
            = Inr X'
          \<longleftrightarrow> (\<exists>sg lam tau gp Kz p u_new Ku q x_new d z_new F.
                cur_params ''sigma'' = Some (Float sg)
              \<and> cur_params ''lambda'' = Some (Float lam)
              \<and> cur_params ''stepsize'' = Some (Float tau)
              \<and> cur_params ''g_param'' = Some gp
              \<and> (cur_params ''K'' = None \<and> Kz = z
                  \<or> (\<exists>f. cur_params ''K'' = Some (Callable f) \<and> f z = Inr Kz))
              \<and> tadd u (smul sg Kz) = Inr p
              \<and> prox_d_conjugate (data_fidelity it) p y sg lam = Inr u_new
              \<and> (cur_params ''K_adjoint'' = None \<and> Ku = u_new
                  \<or> (\<exists>f. cur_params ''K_adjoint'' = Some (Callable f) \<and> f u_new = Inr Ku))
              \<and> tsub x (smul tau Ku) = Inr q
              \<and> call_prox ad cur_prior q tau [gp] no_kwargs = Inr x_new
              \<and> tsub x_new x = Inr d
              \<and> tadd x_new (smul (beta it) d) = Inr z_new
              \<and> (has_cost it
                    \<and> (\<exists>v. F_fn it x_new cur_prior cur_params y phys = Inr v \<and> F = Some v)
                  \<or> \<not> has_cost it \<and> F = None)
              \<and> X' = \<lparr>est = [x_new, z_new, u_new], cost = F\<rparr>)"
  using CP_step_lookups[OF assms, THEN conjunct1, of ad x z u c cur_prior cur_params y phys X']
  unfolding get_float_iff getitem_iff apply_or_id_iff cost_iff .

text \<open>
  Two calls: one with \<open>K\<close> and \<open>K_adjoint\<close> in the dictionary (tripling) and a distinct
  value for every parameter, one with neither operator.
\<close>

theorem CP_step_g_first_False_witness:
  "\<not> g_first cp_quadratic
   \<and> operator_params ''K'' = Some (Callable tripling)
   \<and> CPIteration_forward grad_half_sq_norm cp_quadratic
       \<lparr>est = [vec1 2, vec1 2, vec1 1], cost = None\<rparr> pnp_scaling operator_params (vec1 1)
       identity_physics
     = Inr \<lparr>est = [vec1 (- 79 / 40), vec1 (- 317 / 80), vec1 (33 / 5)], cost = None\<rparr>
   \<and> \<not> g_first cp_iterator
   \<and> unit_params ''K'' = None
   \<and> CPIteration_forward grad_half_sq_norm cp_iterator
       \<lparr>est = [vec1 2, vec1 2, vec1 0], cost = None\<rparr> pnp_halving unit_params (vec1 0)
       identity_physics
     = Inr \<lparr>est = [vec1 (1 / 2), vec1 (- 1), vec1 1], cost = None\<rparr>"
proof -
  have h: "\<not> g_first cp_quadratic" by (simp add: cp_quadratic_def)
  have h': "\<not> g_first cp_iterator" by (simp add: cp_iterator_def)
  have k: "operator_params ''K'' = Some (Callable tripling)" by (simp add: operator_params_def)
  have k': "unit_params ''K'' = None" by (simp add: unit_params_def)
  have 1: "CPIteration_forward grad_half_sq_norm cp_quadratic
       \<lparr>est = [vec1 2, vec1 2, vec1 1], cost = None\<rparr> pnp_scaling operator_params (vec1 1)
       identity_physics
     = Inr \<lparr>est = [vec1 (- 79 / 40), vec1 (- 317 / 80), vec1 (33 / 5)], cost = None\<rparr>"
    by (rule iffD2[OF CP_step_g_first_False[OF h]], rule exI[of _ 2], rule exI[of _ 3],
        rule exI[of _ "1 / 2"], rule exI[of _ "Float (1 / 4)"])
       (simp add: cp_quadratic_def quadratic_fidelity_def pnp_scaling_def scaling_denoiser_def
          operator_params_def tripling_def vec1_def tensor_eval call_prox_def PnP_prox_def
          no_kwargs_def)
  have 2: "CPIteration_forward grad_half_sq_norm cp_iterator
       \<lparr>est = [vec1 2, vec1 2, vec1 0], cost = None\<rparr> pnp_halving unit_params (vec1 0)
       identity_physics
     = Inr \<lparr>est = [vec1 (1 / 2), vec1 (- 1), vec1 1], cost = None\<rparr>"
    by (rule iffD2[OF CP_step_g_first_False[OF h']])
       (simp add: example_defs tensor_eval call_prox_def PnP_prox_def no_kwargs_def)
  from h h' k k' 1 2 show ?thesis by (intro conjI)
qed

section \<open>The Condat-Vu iteration\<close>

lemma gStepCV_primal:
  "gStepCV_forward ad x Atu cur_prior cur_params = Inr r \<longleftrightarrow>
     (\<exists>tau gp q. get_float cur_params ''stepsize'' = Inr tau
        \<and> getitem cur_params ''g_param'' = Inr gp
        \<and> tsub x (smul tau Atu) = Inr q
        \<and> call_prox ad cur_prior q tau [gp] no_kwargs = Inr r)"
  unfolding gStepCV_forward_def by (simp add: bind_eq_Inr) blast

lemma fStepCV_dual:
  "fStepCV_forward it w y cur_params = Inr r \<longleftrightarrow>
     (\<exists>sg lam. get_float cur_params ''sigma'' = Inr sg
        \<and> get_float cur_params ''lambda'' = Inr lam
        \<and> prox_d_conjugate (data_fidelity it) w y sg lam = Inr r)"
  unfolding fStepCV_forward_def by (simp add: bind_eq_Inr)

lemma CV_forward_unfold:
  "CVIteration_forward ad it \<lparr>est = [x, u], cost = c\<rparr> cur_prior cur_params y phys = Inr X'
   \<longleftrightarrow> (\<exists>Atu x_new e Ae u_new F.
          A_adjoint phys u = Inr Atu
        \<and> gStepCV_forward ad x Atu cur_prior cur_params = Inr x_new
        \<and> tsub (smul 2 x_new) x = Inr e
        \<and> A phys e = Inr Ae
        \<and> fStepCV_forward it Ae y cur_params = Inr u_new
        \<and> (if has_cost it
            then bind (F_fn it x_new cur_params y phys) (\<lambda>v. Inr (Some v))
            else Inr None) = Inr F
        \<and> X' = \<lparr>est = [x_new, u_new], cost = F\<rparr>)"
  unfolding CVIteration_forward_def by (simp add: bind_eq_Inr) blast

text \<open>
  The iteration in terms of the lookups in the dictionary, for any forward operator: the
  conjugate-prox is taken at \<open>A(2 * x_new - x)\<close>, which is \<open>2 * A(x_new) - A(x)\<close> where
  the operator maps the one to the other.
\<close>

lemma CV_step_lookups:
  "(CVIteration_forward ad it \<lparr>est = [x, u], cost = c\<rparr> cur_prior cur_params y phys = Inr X'
      \<longleftrightarrow> (\<exists>tau gp sg lam Atu q x_new e Ae u_new F.
            get_float cur_params ''stepsize'' = Inr tau
          \<and> getitem cur_params ''g_param'' = Inr gp
          \<and> get_float cur_params ''sigma'' = Inr sg
          \<and> get_float cur_params ''lambda'' = Inr lam
          \<and> A_adjoint phys u = Inr Atu
          \<and> tsub x (smul tau Atu) = Inr q
          \<and> call_prox ad cur_prior q tau [gp] no_kwargs = Inr x_new
          \<and> tsub (smul 2 x_new) x = Inr e
          \<and> A phys e = Inr Ae
          \<and> prox_d_conjugate (data_fidelity it) Ae y sg lam = Inr u_new
          \<and> (if has_cost it
              then bind (F_fn it x_new cur_params y phys) (\<lambda>v. Inr (Some v))
              else Inr None) = Inr F
          \<and> X' = \<lparr>est = [x_new, u_new], cost = F\<rparr>))
   \<and> (\<forall>x_new u_new F e Ax_new Ax e2 sg lam.
         CVIteration_forward ad it \<lparr>est = [x, u], cost = c\<rparr> cur_prior cur_params y phys
           = Inr \<lparr>est = [x_new, u_new], cost = F\<rparr>
       \<and> get_float cur_params ''sigma'' = Inr sg
       \<and> get_float cur_params ''lambda'' = Inr lam
       \<and> tsub (smul 2 x_new) x = Inr e
       \<and> A phys x_new = Inr Ax_new
       \<and> A phys x = Inr Ax
       \<and> tsub (smul 2 Ax_new) Ax = Inr e2
       \<and> A phys e = Inr e2
       \<longrightarrow> prox_d_conjugate (data_fidelity it) e2 y sg lam = Inr u_new)"
proof (intro conjI iffI allI impI)
  assume "CVIteration_forward ad it \<lparr>est = [x, u], cost = c\<rparr> cur_prior cur_params y phys
            = Inr X'"
  then obtain Atu x_new e Ae u_new F where
    1: "A_adjoint phys u = Inr Atu"
    and 2: "gStepCV_forward ad x Atu cur_prior cur_params = Inr x_new"
    and 3: "tsub (smul 2 x_new) x = Inr e" "A phys e = Inr Ae"
    and 4: "fStepCV_forward it Ae y cur_params = Inr u_new"
    and 5: "(if has_cost it
            then bind (F_fn it x_new cur_params y phys) (\<lambda>v. Inr (Some v))
            else Inr None) = Inr F"
      "X' = \<lparr>est = [x_new, u_new], cost = F\<rparr>"
    unfolding CV_forward_unfold by blast
  from 2 obtain tau gp q where
    6: "get_float cur_params ''stepsize'' = Inr tau" "getitem cur_params ''g_param'' = Inr gp"
      "tsub x (smul tau Atu) = Inr q" "call_prox ad cur_prior q tau [gp] no_kwargs = Inr x_new"
    unfolding gStepCV_primal by blast
  from 4 obtain sg lam where
    7: "get_float cur_params ''sigma'' = Inr sg" "get_float cur_params ''lambda'' = Inr lam"
      "prox_d_conjugate (data_fidelity it) Ae y sg lam = Inr u_new"
    unfolding fStepCV_dual by blast
  show "\<exists>tau gp sg lam Atu q x_new e Ae u_new F.
            get_float cur_params ''stepsize'' = Inr tau
          \<and> getitem cur_params ''g_param'' = Inr gp
          \<and> get_float cur_params ''sigma'' = Inr sg
          \<and> get_float cur_params ''lambda'' = Inr lam
          \<and> A_adjoint phys u = Inr Atu
          \<and> tsub x (smul tau Atu) = Inr q
          \<and> call_prox ad cur_prior q tau [gp] no_kwargs = Inr x_new
          \<and> tsub (smul 2 x_new) x = Inr e
          \<and> A phys e = Inr Ae
          \<and> prox_d_conjugate (data_fidelity it) Ae y sg lam = Inr u_new
          \<and> (if has_cost it
              then bind (F_fn it x_new cur_params y phys) (\<lambda>v. Inr (Some v))
              else Inr None) = Inr F
          \<and> X' = \<lparr>est = [x_new, u_new], cost = F\<rparr>"
    using 1 3 5 6 7 by (intro exI conjI)
next
  assume "\<exists>tau gp sg lam Atu q x_new e Ae u_new F.
            get_float cur_params ''stepsize'' = Inr tau
          \<and> getitem cur_params ''g_param'' = Inr gp
          \<and> get_float cur_params ''sigma'' = Inr sg
          \<and> get_float cur_params ''lambda'' = Inr lam
          \<and> A_adjoint phys u = Inr Atu
          \<and> tsub x (smul tau Atu) = Inr q
          \<and> call_prox ad cur_prior q tau [gp] no_kwargs = Inr x_new
          \<and> tsub (smul 2 x_new) x = Inr e
          \<and> A phys e = Inr Ae
          \<and> prox_d_conjugate (data_fidelity it) Ae y sg lam = Inr u_new
          \<and> (if has_cost it
              then bind (F_fn it x_new cur_params y phys) (\<lambda>v. Inr (Some v))
              else Inr None) = Inr F
          \<and> X' = \<lparr>est = [x_new, u_new], cost = F\<rparr>"
  then obtain tau gp sg lam Atu q x_new e Ae u_new F where
    h: "get_float cur_params ''stepsize'' = Inr tau"
       "getitem cur_params ''g_param'' = Inr gp"
       "get_float cur_params ''sigma'' = Inr sg"
       "get_float cur_params ''lambda'' = Inr lam"
       "A_adjoint phys u = Inr Atu"
       "tsub x (smul tau Atu) = Inr q"
       "call_prox ad cur_prior q tau [gp] no_kwargs = Inr x_new"
       "tsub (smul 2 x_new) x = Inr e"
       "A phys e = Inr Ae"
       "prox_d_conjugate (data_fidelity it) Ae y sg lam = Inr u_new"
       "(if has_cost it
              then bind (F_fn it x_new cur_params y phys) (\<lambda>v. Inr (Some v))
              else Inr None) = Inr F"
       "X' = \<lparr>est = [x_new, u_new], cost = F\<rparr>"
    by (elim exE conjE)
  have g: "gStepCV_forward ad x Atu cur_prior cur_params = Inr x_new"
    using h(1,2,6,7) by (simp add: gStepCV_forward_def)
  have f: "fStepCV_forward it Ae y cur_params = Inr u_new"
    using h(3,4,10) by (simp add: fStepCV_forward_def)
  show "CVIteration_forward ad it \<lparr>est = [x, u], cost = c\<rparr> cur_prior cur_params y phys
            = Inr X'"
    using f g h(5,8,9,11,12) by (simp add: CVIteration_forward_def)
next
  fix x_new u_new F e Ax_new Ax e2 sg lam
  assume a: "CVIteration_forward ad it \<lparr>est = [x, u], cost = c\<rparr> cur_prior cur_params y phys
           = Inr \<lparr>est = [x_new, u_new], cost = F\<rparr>
       \<and> get_float cur_params ''sigma'' = Inr sg
       \<and> get_float cur_params ''lambda'' = Inr lam
       \<and> tsub (smul 2 x_new) x = Inr e
       \<and> A phys x_new = Inr Ax_new
       \<and> A phys x = Inr Ax
       \<and> tsub (smul 2 Ax_new) Ax = Inr e2
       \<and> A phys e = Inr e2"
  then obtain Atu x1 e1 Ae u1 F1 where
    3: "tsub (smul 2 x1) x = Inr e1" "A phys e1 = Inr Ae"
    and 4: "fStepCV_forward it Ae y cur_params = Inr u1"
    and 5: "\<lparr>est = [x_new, u_new], cost = F\<rparr> = \<lparr>est = [x1, u1], cost = F1\<rparr>"
    unfolding CV_forward_unfold by blast
  from 5 have eq: "x1 = x_new" "u1 = u_new" by simp_all
  from a 3 eq have "Ae = e2" by simp
  with 4 a eq show "prox_d_conjugate (data_fidelity it) e2 y sg lam = Inr u_new"
    by (simp add: fStepCV_forward_def)
qed

text \<open>Tripling commutes with the extrapolation, also where the operands broadcast.\<close>

lemma chunk_map: "chunk n k (map f d) = map (map f) (chunk n k d)"
  by (induction n arbitrary: d) (simp_all add: take_map drop_map)

lemma expand_map: "expand s t (map f d) = map f (expand s t d)"
proof (induction s t d rule: expand.induct)
  case (1 s d)
  then show ?case by simp
next
  case (2 s n t d)
  show ?case
  proof (cases "length s \<le> length t")
    case True
    with 2(1) show ?thesis by (simp add: map_concat)
  next
    case False
    show ?thesis
    proof (cases "hd s = n")
      case True
      have e: "concat (map (\<lambda>c. expand (tl s) t (map f c)) (chunk n (prod_list (tl s)) d))
            = concat (map (\<lambda>c. map f (expand (tl s) t c)) (chunk n (prod_list (tl s)) d))"
        by (rule arg_cong[where f = concat], rule map_cong[OF refl])
           (rule 2(2)[OF False True])
      have l: "expand s (n # t) (map f d)
            = concat (map (\<lambda>c. expand (tl s) t (map f c)) (chunk n (prod_list (tl s)) d))"
        using False True by (simp add: chunk_map o_def)
      have r: "map f (expand s (n # t) d)
            = concat (map (\<lambda>c. map f (expand (tl s) t c)) (chunk n (prod_list (tl s)) d))"
        using False True by (simp add: map_concat o_def)
      show ?thesis by (simp only: l r e)
    next
      case neq: False
      with False 2(3) show ?thesis by (simp add: map_concat)
    qed
  qed
qed

lemma extrapolation_entries:
  "map2 (-) (map (\<lambda>v. 2 * v) (map (\<lambda>v. 3 * v) as)) (map (\<lambda>v. 3 * v) bs)
     = map (\<lambda>v. 3 * v) (map2 (-) (map (\<lambda>v. 2 * v) as) (bs::real list))"
proof (induction as arbitrary: bs)
  case Nil
  then show ?case by simp
next
  case (Cons a as)
  then show ?case by (cases bs) (simp_all add: algebra_simps)
qed

lemma tripling_linear:
  "bind (tsub (smul 2 a) b) tripling
     = bind (tripling a) (\<lambda>Aa. bind (tripling b) (\<lambda>Ab. tsub (smul 2 Aa) Ab))"
proof (cases "broadcast_shapes (shape a) (shape b)")
  case None
  then show ?thesis by (simp add: tripling_def tsub_def tbinop_def)
next
  case (Some s)
  then show ?thesis
    using extrapolation_entries[of "expand (shape a) s (data a)" "expand (shape b) s (data b)"]
    by (simp add: tripling_def tsub_def tbinop_def smul_def expand_map)
qed





section \<open>The Moreau identity in exact arithmetic\<close>

lemma tdiv_tdiv_inverse: "gamma \<noteq> 0 \<Longrightarrow> tdiv (tdiv x gamma) (1 / gamma) = x"
  by (simp add: tdiv_def o_def)

lemma moreau_scalar: "gamma \<noteq> 0 \<Longrightarrow> a + gamma * (b / gamma - 1 / gamma * a) = (b::real)"
  by (simp add: field_simps)

lemma moreau_entries:
  "length qs = length xs \<Longrightarrow> gamma \<noteq> 0 \<Longrightarrow>
   map2 (+) qs (map (\<lambda>v. gamma * v)
                  (map2 (-) (map (\<lambda>v. v / gamma) xs) (map (\<lambda>v. 1 / gamma * v) qs)))
     = (xs::real list)"
proof (induction qs xs rule: list_induct2)
  case Nil
  then show ?case by simp
next
  case (Cons q qs x xs)
  have "q + gamma * (x / gamma - 1 / gamma * q) = x"
    using Cons.prems by (rule moreau_scalar)
  moreover have "map2 (+) qs (map (\<lambda>v. gamma * v)
                  (map2 (-) (map (\<lambda>v. v / gamma) xs) (map (\<lambda>v. 1 / gamma * v) qs))) = xs"
    using Cons.IH Cons.prems by blast
  ultimately show ?case by (simp del: times_divide_eq_left)
qed

lemma moreau_tensors:
  assumes "gamma \<noteq> 0" "wf_tensor x" "wf_tensor q" "shape q = shape x"
  shows "\<exists>c. tsub (tdiv x gamma) (smul (1 / gamma) q) = Inr c \<and> tadd q (smul gamma c) = Inr x"
proof -
  let ?c = "\<lparr>shape = shape x,
             data = map2 (-) (map (\<lambda>v. v / gamma) (data x)) (map (\<lambda>v. 1 / gamma * v) (data q))\<rparr>"
  have len: "length (data q) = length (data x)"
    using assms by (simp add: wf_tensor_def)
  have c: "tsub (tdiv x gamma) (smul (1 / gamma) q) = Inr ?c"
    using tbinop_same_shape[of "tdiv x gamma" "smul (1 / gamma) q" "(-)"] assms
    by (simp add: tsub_def) (simp add: tdiv_def smul_def)
  have wc: "wf_tensor (smul gamma ?c)"
    using assms len by (simp add: wf_tensor_def smul_def)
  have "tadd q (smul gamma ?c) = Inr x"
    using tbinop_same_shape[of q "smul gamma ?c" "(+)"] assms wc
      moreau_entries[OF len assms(1)]
    by (simp add: tadd_def) (simp add: smul_def)
  with c show ?thesis by blast
qed

text \<open>
  In exact arithmetic, for \<open>gamma > 0\<close> and a well-formed tensor \<open>x\<close>: whenever
  \<open>prox(x, gamma)\<close> returns a tensor \<open>q\<close> of the shape of \<open>x\<close>, the default
  \<open>prox_conjugate(x / gamma, 1 / gamma)\<close> with \<open>lamb = 1\<close> returns some \<open>c\<close> and
  \<open>q + gamma * c\<close> is \<open>x\<close>; for the Tikhonov prior with no condition on the prox. The
  entries of the model are reals: this says nothing of the rounding of the
  floating-point tensors of the program, where \<open>(x / gamma) / (1 / gamma)\<close> need not
  be \<open>x\<close>.
\<close>

lemma moreau_round_trip_exact:
  assumes "0 < gamma" and "wf_tensor x"
  shows "(\<forall>q. call_prox ad p x gamma args kw = Inr q \<and> shape q = shape x \<and> wf_tensor q \<longrightarrow>
            (\<exists>c. Prior_prox_conjugate ad p (tdiv x gamma) (1 / gamma) args 1 kw = Inr c
                \<and> tadd q (smul gamma c) = Inr x))
       \<and> (\<exists>pt q c. Tikhonov_init = Inr pt
            \<and> call_prox ad pt x gamma [] no_kwargs = Inr q
            \<and> q = smul (1 / (gamma + 1)) x
            \<and> Prior_prox_conjugate ad pt (tdiv x gamma) (1 / gamma) [] 1 no_kwargs = Inr c
            \<and> tadd q (smul gamma c) = Inr x)"
proof -
  have g: "gamma \<noteq> 0" "1 / gamma \<noteq> 0" using assms(1) by simp_all
  have conj: "Prior_prox_conjugate ad' p' (tdiv x gamma) (1 / gamma) args' 1 kw'
       = bind (call_prox ad' p' x gamma args' kw') (\<lambda>q. tsub (tdiv x gamma) (smul (1 / gamma) q))"
    for ad' p' args' kw'
    using g by (simp add: Prior_prox_conjugate_def tdiv_tdiv_inverse)
  have general: "\<exists>c. Prior_prox_conjugate ad' p' (tdiv x gamma) (1 / gamma) args' 1 kw' = Inr c
                \<and> tadd q (smul gamma c) = Inr x"
    if "call_prox ad' p' x gamma args' kw' = Inr q" "shape q = shape x" "wf_tensor q"
    for ad' p' args' kw' q
    using moreau_tensors[OF g(1) assms(2) that(3) that(2)] that(1) by (simp add: conj)
  have t: "call_prox ad \<lparr>cls = Tikhonov, g_attr = None, explicit_prior = True, denoiser = None\<rparr>
             x gamma [] no_kwargs = Inr (smul (1 / (gamma + 1)) x)"
    using assms(1) by (simp add: call_prox_def Tikhonov_prox_def)
  from general[OF t] assms(2)
  obtain c where
    "Prior_prox_conjugate ad \<lparr>cls = Tikhonov, g_attr = None, explicit_prior = True, denoiser = None\<rparr>
       (tdiv x gamma) (1 / gamma) [] 1 no_kwargs = Inr c"
    "tadd (smul (1 / (gamma + 1)) x) (smul gamma c) = Inr x"
    by auto
  with t have "\<exists>pt q c. Tikhonov_init = Inr pt
            \<and> call_prox ad pt x gamma [] no_kwargs = Inr q
            \<and> q = smul (1 / (gamma + 1)) x
            \<and> Prior_prox_conjugate ad pt (tdiv x gamma) (1 / gamma) [] 1 no_kwargs = Inr c
            \<and> tadd q (smul gamma c) = Inr x"
    by (simp add: Tikhonov_init_def)
  with general show ?thesis by blast
qed

section \<open>Arity and shapes of the estimate\<close>

lemma tadd_shape: "tadd a b = Inr c \<Longrightarrow> shape a = shape b \<Longrightarrow> shape c = shape a"
  unfolding tadd_def by (rule tbinop_shape)

lemma tsub_shape: "tsub a b = Inr c \<Longrightarrow> shape a = shape b \<Longrightarrow> shape c = shape a"
  unfolding tsub_def by (rule tbinop_shape)

lemma fStepCP_shape:
  assumes "fStepCP_forward it x w y phys cur_params = Inr r"
    and "shape w = shape x"
    and "\<forall>t s l r. prox_d_conjugate (data_fidelity it) t y s l = Inr r \<longrightarrow> shape r = shape t"
    and "\<forall>t s r. prox (data_fidelity it) t y phys s = Inr r \<longrightarrow> shape r = shape t"
  shows "shape r = shape x"
proof (cases "g_first it")
  case True
  with assms(1) obtain tau p lam where
    "tsub x (smul tau w) = Inr p" "prox (data_fidelity it) p y phys (tau * lam) = Inr r"
    by (auto simp: fStepCP_forward_def bind_eq_Inr)
  with assms(2,4) tsub_shape[of x "smul tau w" p] show ?thesis by (metis shape_smul)
next
  case False
  with assms(1) obtain sg p lam where
    "tadd x (smul sg w) = Inr p" "prox_d_conjugate (data_fidelity it) p y sg lam = Inr r"
    by (auto simp: fStepCP_forward_def bind_eq_Inr)
  with assms(2,3) tadd_shape[of x "smul sg w" p] show ?thesis by (metis shape_smul)
qed

lemma Prior_prox_conjugate_shape:
  assumes "Prior_prox_conjugate ad p x gamma args lamb kw = Inr r"
    and "\<forall>t g r. call_prox ad p t g args kw = Inr r \<longrightarrow> shape r = shape t"
  shows "shape r = shape x"
proof -
  from assms(1) obtain q where
    "call_prox ad p (tdiv x gamma) (lamb / gamma) args kw = Inr q" "tsub x (smul gamma q) = Inr r"
    by (auto simp: Prior_prox_conjugate_def bind_eq_Inr split: if_splits)
  with assms(2) tsub_shape[of x "smul gamma q" r] show ?thesis by (metis shape_smul shape_tdiv)
qed

lemma gStepCP_shape:
  assumes "gStepCP_forward ad it x w cur_prior cur_params = Inr r"
    and "shape w = shape x"
    and "\<forall>t g a r. call_prox ad cur_prior t g a no_kwargs = Inr r \<longrightarrow> shape r = shape t"
  shows "shape r = shape x"
proof (cases "g_first it")
  case True
  with assms(1) obtain sg p gp where
    p: "tadd x (smul sg w) = Inr p"
    and r: "Prior_prox_conjugate ad cur_prior p sg [gp] 1 no_kwargs = Inr r"
    by (auto simp: gStepCP_forward_def bind_eq_Inr)
  from assms(3) have "\<forall>t g r. call_prox ad cur_prior t g [gp] no_kwargs = Inr r
      \<longrightarrow> shape r = shape t" by blast
  from Prior_prox_conjugate_shape[OF r this] p assms(2) tadd_shape[of x "smul sg w" p]
  show ?thesis by simp
next
  case False
  with assms(1) obtain tau p gp where
    "tsub x (smul tau w) = Inr p" "call_prox ad cur_prior p tau [gp] no_kwargs = Inr r"
    by (auto simp: gStepCP_forward_def bind_eq_Inr)
  with assms(2,3) tsub_shape[of x "smul tau w" p] show ?thesis by (metis shape_smul)
qed

lemma gStepCV_shape:
  assumes "gStepCV_forward ad x w cur_prior cur_params = Inr r"
    and "shape w = shape x"
    and "\<forall>t g a r. call_prox ad cur_prior t g a no_kwargs = Inr r \<longrightarrow> shape r = shape t"
  shows "shape r = shape x"
proof -
  from assms(1) obtain tau p gp where
    "tsub x (smul tau w) = Inr p" "call_prox ad cur_prior p tau [gp] no_kwargs = Inr r"
    by (auto simp: gStepCV_forward_def bind_eq_Inr)
  with assms(2,3) tsub_shape[of x "smul tau w" p] show ?thesis by (metis shape_smul)
qed

lemma CP_forward_parts:
  assumes "CPIteration_forward ad it X cur_prior cur_params y phys = Inr X'"
  shows "\<exists>x z u Kz u_new Ku x_new d z_new F.
           est X = [x, z, u]
         \<and> apply_or_id cur_params ''K'' z = Inr Kz
         \<and> (if g_first it then gStepCP_forward ad it u Kz cur_prior cur_params = Inr u_new
            else fStepCP_forward it u Kz y phys cur_params = Inr u_new)
         \<and> apply_or_id cur_params ''K_adjoint'' u_new = Inr Ku
         \<and> (if g_first it then fStepCP_forward it x Ku y phys cur_params = Inr x_new
            else gStepCP_forward ad it x Ku cur_prior cur_params = Inr x_new)
         \<and> tsub x_new x = Inr d
         \<and> tadd x_new (smul (beta it) d) = Inr z_new
         \<and> X' = \<lparr>est = [x_new, z_new, u_new], cost = F\<rparr>"
proof -
  from assms obtain x z u where e: "est X = [x, z, u]"
    by (auto simp: CPIteration_forward_def split: list.splits)
  show ?thesis
  proof (cases "g_first it")
    case True
    with assms e show ?thesis
      unfolding CPIteration_forward_def by (simp add: bind_eq_Inr) blast
  next
    case False
    with assms e show ?thesis
      unfolding CPIteration_forward_def by (simp add: bind_eq_Inr) blast
  qed
qed

lemma CV_forward_parts:
  assumes "CVIteration_forward ad it X cur_prior cur_params y phys = Inr X'"
  shows "\<exists>x u Atu x_new e Ae u_new F.
           est X = [x, u]
         \<and> A_adjoint phys u = Inr Atu
         \<and> gStepCV_forward ad x Atu cur_prior cur_params = Inr x_new
         \<and> tsub (smul 2 x_new) x = Inr e
         \<and> A phys e = Inr Ae
         \<and> fStepCV_forward it Ae y cur_params = Inr u_new
         \<and> X' = \<lparr>est = [x_new, u_new], cost = F\<rparr>"
proof -
  from assms obtain x u where e: "est X = [x, u]"
    by (auto simp: CVIteration_forward_def split: list.splits)
  with assms show ?thesis
    unfolding CVIteration_forward_def by (simp add: bind_eq_Inr) blast
qed


lemma CP_shapes:
  assumes r: "CPIteration_forward ad it X cur_prior cur_params y phys = Inr X'"
    and e: "est X = [x, z, u]"
    and xz: "shape z = shape x"
    and K: "\<forall>t r. apply_or_id cur_params ''K'' t = Inr r \<and> shape t = shape x
               \<longrightarrow> shape r = shape u"
    and Ka: "\<forall>t r. apply_or_id cur_params ''K_adjoint'' t = Inr r \<and> shape t = shape u
               \<longrightarrow> shape r = shape x"
    and fc: "\<forall>t s l r. prox_d_conjugate (data_fidelity it) t y s l = Inr r
               \<longrightarrow> shape r = shape t"
    and fp: "\<forall>t s r. prox (data_fidelity it) t y phys s = Inr r \<longrightarrow> shape r = shape t"
    and pp: "\<forall>t g a r. call_prox ad cur_prior t g a no_kwargs = Inr r \<longrightarrow> shape r = shape t"
  shows "map shape (est X') = map shape (est X)"
proof -
  from CP_forward_parts[OF r] e obtain Kz u_new Ku x_new d z_new F where
    1: "apply_or_id cur_params ''K'' z = Inr Kz"
    and 2: "if g_first it then gStepCP_forward ad it u Kz cur_prior cur_params = Inr u_new
            else fStepCP_forward it u Kz y phys cur_params = Inr u_new"
    and 3: "apply_or_id cur_params ''K_adjoint'' u_new = Inr Ku"
    and 4: "if g_first it then fStepCP_forward it x Ku y phys cur_params = Inr x_new
            else gStepCP_forward ad it x Ku cur_prior cur_params = Inr x_new"
    and 5: "tsub x_new x = Inr d"
    and 6: "tadd x_new (smul (beta it) d) = Inr z_new"
    and 7: "X' = \<lparr>est = [x_new, z_new, u_new], cost = F\<rparr>"
    by auto
  from K 1 xz have sKz: "shape Kz = shape u" by blast
  have su: "shape u_new = shape u"
  proof (cases "g_first it")
    case True
    with 2 gStepCP_shape[OF _ sKz pp] show ?thesis by simp
  next
    case False
    with 2 fStepCP_shape[OF _ sKz fc fp] show ?thesis by simp
  qed
  from Ka 3 su have sKu: "shape Ku = shape x" by blast
  have sx: "shape x_new = shape x"
  proof (cases "g_first it")
    case True
    with 4 fStepCP_shape[OF _ sKu fc fp] show ?thesis by simp
  next
    case False
    with 4 gStepCP_shape[OF _ sKu pp] show ?thesis by simp
  qed
  from tsub_shape[OF 5] sx have sd: "shape d = shape x" by simp
  from tadd_shape[OF 6] sd sx have "shape z_new = shape x" by simp
  with su sx xz e 7 show ?thesis by simp
qed

lemma CV_shapes:
  assumes r: "CVIteration_forward ad it X cur_prior cur_params y phys = Inr X'"
    and e: "est X = [x, u]"
    and Aa: "\<forall>t r. A_adjoint phys t = Inr r \<and> shape t = shape u \<longrightarrow> shape r = shape x"
    and Af: "\<forall>t r. A phys t = Inr r \<and> shape t = shape x \<longrightarrow> shape r = shape u"
    and fc: "\<forall>t s l r. prox_d_conjugate (data_fidelity it) t y s l = Inr r
               \<longrightarrow> shape r = shape t"
    and pp: "\<forall>t g a r. call_prox ad cur_prior t g a no_kwargs = Inr r \<longrightarrow> shape r = shape t"
  shows "map shape (est X') = map shape (est X)"
proof -
  from CV_forward_parts[OF r] e obtain Atu x_new ex Ae u_new F where
    1: "A_adjoint phys u = Inr Atu"
    and 2: "gStepCV_forward ad x Atu cur_prior cur_params = Inr x_new"
    and 3: "tsub (smul 2 x_new) x = Inr ex"
    and 4: "A phys ex = Inr Ae"
    and 5: "fStepCV_forward it Ae y cur_params = Inr u_new"
    and 7: "X' = \<lparr>est = [x_new, u_new], cost = F\<rparr>"
    by auto
  from Aa 1 have "shape Atu = shape x" by blast
  from gStepCV_shape[OF 2 this pp] have sx: "shape x_new = shape x" .
  from tsub_shape[OF 3] sx have "shape ex = shape x" by simp
  with Af 4 have sA: "shape Ae = shape u" by blast
  from 5 obtain sg lam where "prox_d_conjugate (data_fidelity it) Ae y sg lam = Inr u_new"
    by (auto simp: fStepCV_forward_def bind_eq_Inr)
  with fc sA have "shape u_new = shape u" by metis
  with sx e 7 show ?thesis by simp
qed



lemma halving_collaborators_keep_shape:
  "\<forall>t s l r. prox_d_conjugate (data_fidelity cp_iterator) t y s l = Inr r \<longrightarrow> shape r = shape t"
  "\<forall>t s r. prox (data_fidelity cp_iterator) t y phys s = Inr r \<longrightarrow> shape r = shape t"
  "\<forall>t s l r. prox_d_conjugate (data_fidelity cv_iterator) t y s l = Inr r \<longrightarrow> shape r = shape t"
  "\<forall>t g a r. call_prox ad pnp_halving t g a no_kwargs = Inr r \<longrightarrow> shape r = shape t"
  by (auto simp: cp_iterator_def cv_iterator_def halving_fidelity_def pnp_halving_def
      halving_denoiser_def call_prox_def PnP_prox_def split: list.splits)


section \<open>Trainable parameters of the unrolled model\<close>

lemma entry_at_Single: "entry_at (Single v) = (\<lambda>i. v)"
  by (simp add: fun_eq_iff entry_at_def)

lemma entry_at_Sequence: "entry_at (Sequence vs) = (!) vs"
  by (simp add: fun_eq_iff entry_at_def)

lemma normalise_entry_Inr:
  "normalise_entry n e = Inr vs \<Longrightarrow> vs = map (entry_at e) [0..<n]"
  by (cases e)
     (auto simp: normalise_entry_def entry_at_Single entry_at_Sequence map_replicate_const
        map_nth split: if_splits)

lemma normalise_schedule_Inr:
  "normalise_schedule n ps = Inr s \<Longrightarrow> s = map (\<lambda>(k, e). (k, map (entry_at e) [0..<n])) ps"
proof (induction ps arbitrary: s)
  case Nil
  then show ?case by simp
next
  case (Cons a ps)
  obtain k e where a: "a = (k, e)" by (cases a)
  from Cons.prems a obtain vs r where
    "normalise_entry n e = Inr vs" "normalise_schedule n ps = Inr r" "s = (k, vs) # r"
    by (auto split: sum.splits)
  with Cons.IH[of r] a normalise_entry_Inr[of n e vs] show ?case by simp
qed

lemma filter_key_distinct:
  "distinct (map fst ps) \<Longrightarrow> (k, e) \<in> set ps \<Longrightarrow>
   filter (\<lambda>(k', vs). k' = k) (map (\<lambda>(k', e'). (k', f e')) ps) = [(k, f e)]"
proof (induction ps)
  case Nil
  then show ?case by simp
next
  case (Cons a ps)
  obtain k1 e1 where a: "a = (k1, e1)" by (cases a)
  show ?case
  proof (cases "k1 = k")
    case True
    with Cons.prems a have e: "e1 = e" by (auto simp: image_iff)
    from Cons.prems a True have "\<forall>p \<in> set ps. fst p \<noteq> k" by (auto simp: image_iff)
    then have "filter (\<lambda>(k', vs). k' = k) (map (\<lambda>(k', e'). (k', f e')) ps) = []"
      by (auto simp: filter_empty_conv)
    with a True e show ?thesis by simp
  next
    case False
    with Cons a show ?thesis by auto
  qed
qed

text \<open>
  C9. For every iteration budget \<open>N\<close> and every well-formed schedule with a
  \<open>"stepsize"\<close> entry, the model built with \<open>trainable_params = ["stepsize"]\<close> exposes
  exactly \<open>N\<close> trainable values, the stepsize of each position \<open>0, ..., N - 1\<close>, under
  distinct names and initialised from the schedule; every trainable parameter bears a
  name of \<open>trainable_params\<close>; and the entries not listed are fixed, with the values of
  the supplied schedule.
\<close>

theorem unrolled_trainable_stepsizes:
  assumes "unfolded_builder params_algo [''stepsize''] N = Inr m"
    and "distinct (map fst params_algo)"
    and "(''stepsize'', e) \<in> set params_algo"
  shows "named_parameters m = map (\<lambda>i. ((''stepsize'', i), entry_at e i)) [0..<N]
       \<and> length (named_parameters m) = N
       \<and> distinct (map fst (named_parameters m))
       \<and> (\<forall>p \<in> set (named_parameters m). fst (fst p) \<in> set [''stepsize''])
       \<and> (\<forall>k e'. (k, e') \<in> set params_algo \<and> k \<noteq> ''stepsize''
             \<longrightarrow> (k, map (entry_at e') [0..<N]) \<in> set (fixed m))
       \<and> (\<forall>k vs. (k, vs) \<in> set (fixed m)
             \<longrightarrow> k \<noteq> ''stepsize''
                 \<and> (\<exists>e'. (k, e') \<in> set params_algo \<and> vs = map (entry_at e') [0..<N]))"
proof -
  let ?s = "map (\<lambda>(k, e). (k, map (entry_at e) [0..<N])) params_algo"
  from assms(1) obtain s where "normalise_schedule N params_algo = Inr s"
    and m: "m = \<lparr>depth = N, trainable = filter (\<lambda>(k, vs). k \<in> set [''stepsize'']) s,
                 fixed = filter (\<lambda>(k, vs). k \<notin> set [''stepsize'']) s\<rparr>"
    by (auto simp: unfolded_builder_def bind_eq_Inr)
  with normalise_schedule_Inr have s: "s = ?s" by blast
  have t: "trainable m = [(''stepsize'', map (entry_at e) [0..<N])]"
    using filter_key_distinct[OF assms(2,3), of "\<lambda>e. map (entry_at e) [0..<N]"] m s by simp
  have n: "named_parameters m = map (\<lambda>i. ((''stepsize'', i), entry_at e i)) [0..<N]"
    by (simp add: named_parameters_def t)
  have d: "distinct (map fst (named_parameters m))"
    by (simp add: n o_def distinct_map inj_on_def)
  have f1: "\<forall>k e'. (k, e') \<in> set params_algo \<and> k \<noteq> ''stepsize''
             \<longrightarrow> (k, map (entry_at e') [0..<N]) \<in> set (fixed m)"
    using m s by (force simp: image_iff)
  have f2: "\<forall>k vs. (k, vs) \<in> set (fixed m)
             \<longrightarrow> k \<noteq> ''stepsize''
                 \<and> (\<exists>e'. (k, e') \<in> set params_algo \<and> vs = map (entry_at e') [0..<N])"
    using m s by auto
  from n d f1 f2 show ?thesis by simp
qed

theorem unrolled_trainable_stepsizes_witness:
  "unfolded_builder three_step_schedule [''stepsize''] 3
     = Inr \<lparr>depth = 3, trainable = [(''stepsize'', [1, 1, 1])],
            fixed = [(''g_param'', [1 / 100, 1 / 100, 1 / 100]), (''lambda'', [1, 1, 1])]\<rparr>
   \<and> named_parameters \<lparr>depth = 3, trainable = [(''stepsize'', [1, 1, 1])],
            fixed = [(''g_param'', [1 / 100, 1 / 100, 1 / 100]), (''lambda'', [1, 1, 1])]\<rparr>
     = map (\<lambda>i. ((''stepsize'', i), entry_at (Sequence [1, 1, 1]) i)) [0..<3]
   \<and> length (named_parameters \<lparr>depth = 3, trainable = [(''stepsize'', [1, 1, 1])],
            fixed = [(''g_param'', [1 / 100, 1 / 100, 1 / 100]), (''lambda'', [1, 1, 1])]\<rparr>) = 3"
proof -
  have b: "unfolded_builder three_step_schedule [''stepsize''] 3
     = Inr \<lparr>depth = 3, trainable = [(''stepsize'', [1, 1, 1])],
            fixed = [(''g_param'', [1 / 100, 1 / 100, 1 / 100]), (''lambda'', [1, 1, 1])]\<rparr>"
    by (simp add: unfolded_builder_def three_step_schedule_def normalise_entry_def
        numeral_3_eq_3)
  have d: "distinct (map fst three_step_schedule)"
    by (simp add: three_step_schedule_def)
  have i: "(''stepsize'', Sequence [1, 1, 1]) \<in> set three_step_schedule"
    by (simp add: three_step_schedule_def)
  from unrolled_trainable_stepsizes[OF b d i] b show ?thesis by blast
qed

section \<open>The Tikhonov prox and the documented potential\<close>

text \<open>
  The closed-form \<open>prox\<close> and \<open>grad\<close> of the class are those of the documented potential
  \<open>1/2 ||x||^2\<close>: \<open>x / (gamma + 1)\<close> minimises \<open>0.5 / gamma * ||z - x||^2 + 0.5 * ||z||^2\<close>
  over the tensors \<open>z\<close> of the shape of \<open>x\<close>.
\<close>

lemma tnorm_squared: "(tnorm t)\<^sup>2 = sum_list (map (\<lambda>v. v * v) (data t))"
  unfolding tnorm_def by (rule real_sqrt_pow2) (rule sum_list_nonneg, auto)

lemma prox_entry_scaled:
  assumes "0 < (g::real)"
  shows "0.5 / g * ((q - (g + 1) * q) * (q - (g + 1) * q)) + 0.5 * (q * q)
         \<le> 0.5 / g * ((b - (g + 1) * q) * (b - (g + 1) * q)) + 0.5 * (b * b)"
proof -
  have "0.5 / g * ((b - (g + 1) * q) * (b - (g + 1) * q)) + 0.5 * (b * b)
        - (0.5 / g * ((q - (g + 1) * q) * (q - (g + 1) * q)) + 0.5 * (q * q))
        = (g + 1) / (2 * g) * ((b - q) * (b - q))"
    using assms by (simp add: field_simps)
  moreover have "0 \<le> (g + 1) / (2 * g) * ((b - q) * (b - q))"
    using assms by simp
  ultimately show ?thesis by linarith
qed

lemma prox_entry:
  assumes "0 < (g::real)"
  shows "0.5 / g * ((1 / (g + 1) * a - a) * (1 / (g + 1) * a - a))
           + 0.5 * (1 / (g + 1) * a * (1 / (g + 1) * a))
         \<le> 0.5 / g * ((b - a) * (b - a)) + 0.5 * (b * b)"
proof -
  have "(g + 1) * (1 / (g + 1) * a) = a" using assms by simp
  with prox_entry_scaled[OF assms, of "1 / (g + 1) * a" b] show ?thesis by simp
qed

lemma prox_entries:
  assumes "0 < (g::real)"
  shows "length zs = length xs \<Longrightarrow>
    0.5 / g * sum_list (map (\<lambda>v. v * v) (map2 (-) (map (\<lambda>v. 1 / (g + 1) * v) xs) xs))
      + 0.5 * sum_list (map (\<lambda>v. v * v) (map (\<lambda>v. 1 / (g + 1) * v) xs))
    \<le> 0.5 / g * sum_list (map (\<lambda>v. v * v) (map2 (-) zs xs))
      + 0.5 * sum_list (map (\<lambda>v. v * v) zs)"
proof (induction zs xs rule: list_induct2)
  case Nil
  then show ?case by simp
next
  case (Cons b zs a xs)
  from prox_entry[OF assms, of a b] Cons.IH show ?case
    by (simp only: list.map zip_Cons_Cons sum_list.Cons prod.case distrib_left)
qed

lemma Tikhonov_prox_minimises:
  assumes "0 < gamma" and "wf_tensor x" and "wf_tensor z" and "shape z = shape x"
  shows "\<exists>q dq dz. Tikhonov_prox x gamma = Inr q \<and> tsub q x = Inr dq \<and> tsub z x = Inr dz
           \<and> 0.5 / gamma * (tnorm dq)\<^sup>2 + 0.5 * (tnorm q)\<^sup>2
               \<le> 0.5 / gamma * (tnorm dz)\<^sup>2 + 0.5 * (tnorm z)\<^sup>2"
proof -
  let ?q = "smul (1 / (gamma + 1)) x"
  have q: "Tikhonov_prox x gamma = Inr ?q"
    using assms(1) by (simp add: Tikhonov_prox_def)
  have dq: "tsub ?q x = Inr \<lparr>shape = shape x, data = map2 (-) (data ?q) (data x)\<rparr>"
    using tbinop_same_shape[of ?q x "(-)"] assms(2) by (simp add: tsub_def)
  have dz: "tsub z x = Inr \<lparr>shape = shape z, data = map2 (-) (data z) (data x)\<rparr>"
    using tbinop_same_shape[of z x "(-)"] assms(2,3,4) by (simp add: tsub_def)
  have len: "length (data z) = length (data x)"
    using assms(2,3,4) by (simp add: wf_tensor_def)
  from prox_entries[OF assms(1) len]
  have "0.5 / gamma * (tnorm \<lparr>shape = shape x, data = map2 (-) (data ?q) (data x)\<rparr>)\<^sup>2
          + 0.5 * (tnorm ?q)\<^sup>2
        \<le> 0.5 / gamma * (tnorm \<lparr>shape = shape z, data = map2 (-) (data z) (data x)\<rparr>)\<^sup>2
          + 0.5 * (tnorm z)\<^sup>2"
    by (simp add: tnorm_squared smul_def)
  with q dq dz show ?thesis by blast
qed

end
